theory Spec2Isabelle
  imports Main "HOL-Library.Log_Nat" "HOL-Library.List_Lexorder"
begin

section \<open>Python values used by the extraction pipeline\<close>

subsection \<open>Floating-point coordinates\<close>

text \<open>
  The coordinates of a \<^verbatim>\<open>fitz.Rect\<close> and the page dimensions are Python floats, that is
  IEEE 754 binary64 numbers. A finite double is modelled by the rational number it
  denotes. The result of an arithmetic operation is the exact result rounded to the
  nearest double, ties to the even significand: 53 significant bits, the exponent of
  the last place never below \<open>-1074\<close> (subnormal numbers). Infinities, NaN, the sign of
  zero and overflow beyond the largest finite double are outside the model.
\<close>

definition ilog2 :: "rat \<Rightarrow> int" where
  \<comment> \<open>the integer \<open>e\<close> with \<open>2 powi e \<le> \<bar>x\<bar> < 2 powi (e + 1)\<close>, for \<open>x \<noteq> 0\<close>\<close>
  "ilog2 x = (let (p, q) = quotient_of \<bar>x\<bar>; d = bitlen p - bitlen q
              in if 2 powi d \<le> \<bar>x\<bar> then d else d - 1)"

definition round_half_even :: "rat \<Rightarrow> int" where
  "round_half_even s = (let f = \<lfloor>s\<rfloor>; d = s - of_int f
                        in if d < 1 / 2 then f else if 1 / 2 < d then f + 1
                           else if even f then f else f + 1)"

definition round64 :: "rat \<Rightarrow> rat" where
  "round64 x = (if x = 0 then 0
                else let q = max (ilog2 x - 52) (- 1074)
                     in of_int (round_half_even (x / 2 powi q)) * 2 powi q)"

datatype float64 = Float64 (val: rat)

instantiation float64 :: minus
begin

definition minus_float64 :: "float64 \<Rightarrow> float64 \<Rightarrow> float64" where
  "a - b = Float64 (round64 (val a - val b))"

instance ..

end

subsection \<open>Strings\<close>

text \<open>
  A Python \<^verbatim>\<open>str\<close> is a sequence of Unicode code points; \<open>str\<close> turns an ASCII literal
  into one. \<open>isspace\<close> is the whitespace test that \<^verbatim>\<open>str.strip()\<close> and \<^verbatim>\<open>str.split()\<close>
  share in CPython.
\<close>

type_synonym pystr = "nat list"

abbreviation (input) str :: "string \<Rightarrow> pystr" where
  "str s \<equiv> map of_char s"

definition isspace :: "nat \<Rightarrow> bool" where
  "isspace c = (c \<in> {9, 10, 11, 12, 13, 28, 29, 30, 31, 32, 133, 160, 5760,
                      8232, 8233, 8239, 8287, 12288} \<or> (8192 \<le> c \<and> c \<le> 8202))"

definition newline :: nat where
  "newline = 10"

definition strip :: "pystr \<Rightarrow> pystr" where
  \<comment> \<open>\<^verbatim>\<open>s.strip()\<close>\<close>
  "strip s = rev (dropWhile isspace (rev (dropWhile isspace s)))"

function split_ws :: "pystr \<Rightarrow> pystr list" where
  \<comment> \<open>\<^verbatim>\<open>s.split()\<close>: the maximal runs of characters that are not whitespace\<close>
  "split_ws [] = []"
| "split_ws (c # cs) =
     (if isspace c then split_ws cs
      else (c # takeWhile (\<lambda>d. \<not> isspace d) cs) # split_ws (dropWhile (\<lambda>d. \<not> isspace d) cs))"
  by pat_completeness auto
termination
  by (relation "measure length") (auto simp: less_Suc_eq_le length_dropWhile_le)

function split_on :: "nat \<Rightarrow> pystr \<Rightarrow> pystr list" where
  \<comment> \<open>\<^verbatim>\<open>s.split(sep)\<close> for a separator of one character\<close>
  "split_on sep s =
     (case dropWhile (\<lambda>c. c \<noteq> sep) s of
        [] \<Rightarrow> [s]
      | _ # rest \<Rightarrow> takeWhile (\<lambda>c. c \<noteq> sep) s # split_on sep rest)"
  by pat_completeness auto
termination
proof (relation "measure (\<lambda>(sep, s). length s)")
  show "wf (measure (\<lambda>(sep :: nat, s :: pystr). length s))"
    by simp
next
  fix sep :: nat and s :: pystr and c rest
  assume "dropWhile (\<lambda>c. c \<noteq> sep) s = c # rest"
  then have "length (c # rest) \<le> length s"
    by (metis length_dropWhile_le)
  then show "((sep, rest), (sep, s)) \<in> measure (\<lambda>(sep, s). length s)"
    by simp
qed

declare split_on.simps [simp del]

definition endswith :: "pystr \<Rightarrow> pystr \<Rightarrow> bool" where
  "endswith s suffix = (length suffix \<le> length s \<and> drop (length s - length suffix) s = suffix)"

definition lower :: "pystr \<Rightarrow> pystr" where
  \<comment> \<open>\<^verbatim>\<open>s.lower()\<close> on the ASCII letters. The Unicode case table is not part of the
      program; no other code point is mapped to \<^verbatim>\<open>.\<close>, \<^verbatim>\<open>p\<close>, \<^verbatim>\<open>d\<close> or \<^verbatim>\<open>f\<close>, the only
      characters the program compares the result with.\<close>
  "lower s = map (\<lambda>c. if 65 \<le> c \<and> c \<le> 90 then c + 32 else c) s"

subsection \<open>Exceptions and printed lines\<close>

datatype exn = IndexError | ValueError | RuntimeError pystr | OSError pystr

definition bind_exn :: "exn + 'a \<Rightarrow> ('a \<Rightarrow> exn + 'b) \<Rightarrow> exn + 'b" where
  \<comment> \<open>sequencing: an exception raised by the first statement skips the rest\<close>
  "bind_exn m f = (case m of Inl e \<Rightarrow> Inl e | Inr v \<Rightarrow> f v)"

definition try_except :: "exn + 'a \<Rightarrow> (exn \<Rightarrow> exn + 'a) \<Rightarrow> exn + 'a" where
  \<comment> \<open>\<^verbatim>\<open>try: m  except Exception as e: handler\<close>\<close>
  "try_except m handler = (case m of Inl e \<Rightarrow> handler e | Inr v \<Rightarrow> Inr v)"

text \<open>
  The lines the program prints, by the \<^verbatim>\<open>print\<close> statement they come from in
  \<^verbatim>\<open>main.py\<close>: the keyword search raised (line 65), a keyword was not found (line 69),
  both table regions were empty (line 98), the table had no rows (line 117), a row had
  the wrong number of fields (line 120), opening or processing raised (line 133), the
  folder does not exist (line 142), the folder holds no PDF (line 147), a file is being
  processed (line 153), the CSV file was saved (line 162), nothing was extracted
  (line 164). \<^verbatim>\<open>print\<close> itself is taken not to raise.
\<close>

datatype msg =
    KeywordSearchFailed exn
  | KeywordsNotFound pystr
  | TableExtractFailed pystr
  | TableEmpty pystr
  | TableShapeMismatch pystr
  | PdfProcessingFailed exn
  | FolderMissing
  | NoPdfInFolder
  | Processing pystr
  | CsvSaved pystr
  | NothingExtracted

section \<open>Geometry: \<^verbatim>\<open>get_corrected_rect\<close>\<close>

record rect =
  x0 :: float64
  y0 :: float64
  x1 :: float64
  y1 :: float64

definition Rect :: "float64 \<Rightarrow> float64 \<Rightarrow> float64 \<Rightarrow> float64 \<Rightarrow> rect" where
  "Rect a b c d = \<lparr>x0 = a, y0 = b, x1 = c, y1 = d\<rparr>"

text \<open>
  What the program reads of a page: \<^verbatim>\<open>page.rotation\<close>, \<^verbatim>\<open>page.rect.width\<close>,
  \<^verbatim>\<open>page.rect.height\<close>, \<^verbatim>\<open>page.search_for(text)\<close> and
  \<^verbatim>\<open>page.get_text("text", clip=rect)\<close>. The two library calls may raise.
\<close>

record page =
  rotation :: int
  page_width :: float64
  page_height :: float64
  search_for :: "pystr \<Rightarrow> exn + rect list"
  get_text :: "rect \<Rightarrow> exn + pystr"

type_synonym document = "page list"

definition get_corrected_rect :: "page \<Rightarrow> rect \<Rightarrow> rect" where
  "get_corrected_rect p r =
     (if rotation p = 90 then
        Rect (y0 r) (page_width p - x1 r) (y1 r) (page_width p - x0 r)
      else if rotation p = 180 then
        Rect (page_width p - x1 r) (page_height p - y1 r)
             (page_width p - x0 r) (page_height p - y0 r)
      else if rotation p = 270 then
        Rect (page_height p - y1 r) (x0 r) (page_height p - y0 r) (x1 r)
      else r)"

section \<open>Anchors and regions\<close>

fun find_text_position_from :: "nat \<Rightarrow> page list \<Rightarrow> pystr \<Rightarrow> exn + (nat \<times> rect) list" where
  \<comment> \<open>the loop over \<^verbatim>\<open>enumerate(doc)\<close>, from page index \<open>page_index\<close> on\<close>
  "find_text_position_from page_index [] search_text = Inr []"
| "find_text_position_from page_index (p # ps) search_text =
     bind_exn (search_for p search_text) (\<lambda>bboxes.
     bind_exn (find_text_position_from (Suc page_index) ps search_text) (\<lambda>positions.
       Inr (map (\<lambda>bbox. (page_index, get_corrected_rect p bbox)) bboxes @ positions)))"

definition find_text_position :: "document \<Rightarrow> pystr \<Rightarrow> exn + (nat \<times> rect) list" where
  "find_text_position doc search_text = find_text_position_from 0 doc search_text"

definition extract_text_in_region :: "page \<Rightarrow> rect \<Rightarrow> exn + pystr" where
  "extract_text_in_region p r =
     bind_exn (get_text p (get_corrected_rect p r)) (\<lambda>text.
       Inr (if text \<noteq> [] then strip text else []))"

definition getitem :: "'a list \<Rightarrow> nat \<Rightarrow> exn + 'a" where
  \<comment> \<open>\<^verbatim>\<open>xs[i]\<close> for an index that is not negative\<close>
  "getitem xs i = (if i < length xs then Inr (xs ! i) else Inl IndexError)"

section \<open>Tables\<close>

record dataframe =
  df_columns :: "pystr list"
  df_rows :: "pystr list list"

definition DataFrame :: "pystr list list \<Rightarrow> pystr list \<Rightarrow> dataframe" where
  \<comment> \<open>\<^verbatim>\<open>pd.DataFrame(rows, columns=columns)\<close>, called only with rows as long as \<open>columns\<close>\<close>
  "DataFrame rows cols = \<lparr>df_columns = cols, df_rows = rows\<rparr>"

definition setitem :: "dataframe \<Rightarrow> pystr \<Rightarrow> pystr \<Rightarrow> dataframe" where
  \<comment> \<open>\<^verbatim>\<open>df[name] = value\<close> for a scalar: a new last column, or an existing one overwritten\<close>
  "setitem df name v =
     (if name \<in> set (df_columns df) then
        df\<lparr>df_rows := map (\<lambda>r. map (\<lambda>(c, x). if c = name then v else x) (zip (df_columns df) r))
                           (df_rows df)\<rparr>
      else \<lparr>df_columns = df_columns df @ [name], df_rows = map (\<lambda>r. r @ [v]) (df_rows df)\<rparr>)"

definition df_empty :: "dataframe \<Rightarrow> bool" where
  \<comment> \<open>\<^verbatim>\<open>df.empty\<close>\<close>
  "df_empty df = (df_rows df = [] \<or> df_columns df = [])"

fun pd_concat :: "dataframe list \<Rightarrow> exn + dataframe" where
  \<comment> \<open>\<^verbatim>\<open>pd.concat(frames, ignore_index=True)\<close> for frames with the same columns\<close>
  "pd_concat [] = Inl ValueError"
| "pd_concat (d # ds) = Inr \<lparr>df_columns = df_columns d, df_rows = concat (map df_rows (d # ds))\<rparr>"

section \<open>\<^verbatim>\<open>extract_data_from_pdf\<close>\<close>

definition float_literal :: "rat \<Rightarrow> float64" where
  \<comment> \<open>a decimal literal denotes the double nearest to it\<close>
  "float_literal x = Float64 (round64 x)"

definition table_rect_set1 :: rect where
  "table_rect_set1 = Rect (float_literal 39.89999771118164) (float_literal 760.1726684570312)
                          (float_literal 557.47998046875) (float_literal 820.8424682617188)"

definition iso_no_rect_set1 :: rect where
  "iso_no_rect_set1 = Rect (float_literal 960.6903686523438) (float_literal 811.55810546875)
                           (float_literal 1500.6903686523438) (float_literal 816.8818969726562)"

definition rev_no_rect_set1 :: rect where
  "rev_no_rect_set1 = Rect (float_literal 1156.469970703125) (float_literal 812.6487426757812)
                           (float_literal 1172.7728271484375) (float_literal 820.2630004882812)"

definition table_rect_set2 :: rect where
  "table_rect_set2 = Rect (float_literal 10.4000244140625) (float_literal 535.4000244140625)
                          (float_literal 389.02935546875) (float_literal 567.79730224609375)"

definition iso_no_rect_set2 :: rect where
  "iso_no_rect_set2 = Rect (float_literal 687.4000244140625) (float_literal 565.4000244140625)
                           (float_literal 780.02935546875) (float_literal 580.79730224609375)"

definition rev_no_rect_set2 :: rect where
  "rev_no_rect_set2 = Rect (float_literal 820.4000244140625) (float_literal 575.4000244140625)
                           (float_literal 829.02935546875) (float_literal 579.79730224609375)"

definition columns :: "pystr list" where
  "columns = map (\<lambda>s. str s)
     [''NPS'', ''SPEC'', ''OPER.PRESS'', ''OPER.TEMP'', ''DESIGN.PRESS'', ''DESIGN.TEMP'',
      ''TEST.PRESS'', ''MEDIUM'', ''INSULATION.TYPE'', ''INSULATION.THK'', ''TRACING.TEMP'',
      ''PAUT'', ''UT'', ''PT'', ''MT'', ''PAINTCODE'', ''PWHT'', ''STEAMOUT'', ''TOXIC'']"

definition find_keywords ::
  "document \<Rightarrow> exn + ((nat \<times> rect) list \<times> (nat \<times> rect) list \<times> (nat \<times> rect) list
                        \<times> (nat \<times> rect) list \<times> (nat \<times> rect) list)" where
  \<comment> \<open>the five searches of the inner \<^verbatim>\<open>try\<close>\<close>
  "find_keywords doc =
     bind_exn (find_text_position doc (str ''NPS'')) (\<lambda>nps_positions.
     bind_exn (find_text_position doc (str ''TOXIC'')) (\<lambda>toxic_positions.
     bind_exn (find_text_position doc (str ''KOSHA'')) (\<lambda>kosha_positions.
     bind_exn (find_text_position doc (str ''ISO DWG. NO.'')) (\<lambda>iso_positions.
     bind_exn (find_text_position doc (str ''REV. NO'')) (\<lambda>rev_positions.
       Inr (nps_positions, toxic_positions, kosha_positions, iso_positions, rev_positions))))))"

definition layout_resolver ::
  "pystr \<Rightarrow> page \<Rightarrow> page \<Rightarrow> page \<Rightarrow> exn + (msg list \<times> (pystr \<times> pystr \<times> pystr) option)" where
  \<comment> \<open>lines 85 to 102 of \<^verbatim>\<open>extract_data_from_pdf\<close>, the choice between the two coordinate
      sets; the result is the table text, the ISO text and the revision text, or \<open>None\<close>
      where the program returns \<^verbatim>\<open>None\<close>\<close>
  "layout_resolver pdf_path nps_page iso_page rev_page =
     bind_exn (extract_text_in_region nps_page table_rect_set1) (\<lambda>table_text.
       if strip table_text \<noteq> [] then
         bind_exn (extract_text_in_region iso_page iso_no_rect_set1) (\<lambda>iso_no_text.
         bind_exn (extract_text_in_region rev_page rev_no_rect_set1) (\<lambda>rev_no_text.
           Inr ([], Some (table_text, iso_no_text, rev_no_text))))
       else
         bind_exn (extract_text_in_region nps_page table_rect_set2) (\<lambda>table_text.
           if \<not> strip table_text \<noteq> [] then Inr ([TableExtractFailed pdf_path], None)
           else
             bind_exn (extract_text_in_region iso_page iso_no_rect_set2) (\<lambda>iso_no_text.
             bind_exn (extract_text_in_region rev_page rev_no_rect_set2) (\<lambda>rev_no_text.
               Inr ([], Some (table_text, iso_no_text, rev_no_text))))))"

definition table_rows :: "pystr \<Rightarrow> pystr list list" where
  \<comment> \<open>\<^verbatim>\<open>[line.split() for line in table_text.split("\n") if line.strip()]\<close>\<close>
  "table_rows table_text =
     map split_ws (filter (\<lambda>line. strip line \<noteq> []) (split_on newline table_text))"

definition table_parser :: "pystr \<Rightarrow> pystr \<Rightarrow> pystr \<Rightarrow> pystr \<Rightarrow> msg list \<times> dataframe option" where
  \<comment> \<open>lines 106 to 130 of \<^verbatim>\<open>extract_data_from_pdf\<close>, from the table text to the returned
      DataFrame\<close>
  "table_parser pdf_path table_text iso_no_text rev_no_text =
     (let rows = table_rows table_text in
      if rows = [] then ([TableEmpty pdf_path], None)
      else if list_ex (\<lambda>r. length r \<noteq> length columns) rows then
        ([TableShapeMismatch pdf_path], None)
      else ([], Some (setitem (setitem (DataFrame rows columns) (str ''ISO_NO'') iso_no_text)
                              (str ''REV.NO'') rev_no_text)))"

definition extract_from_document :: "pystr \<Rightarrow> document \<Rightarrow> exn + (msg list \<times> dataframe option)" where
  \<comment> \<open>lines 57 to 130, the body of \<^verbatim>\<open>with fitz.open(pdf_path) as doc\<close>\<close>
  "extract_from_document pdf_path doc =
     (case find_keywords doc of
        Inl e \<Rightarrow> Inr ([KeywordSearchFailed e], None)
      | Inr (nps_positions, toxic_positions, kosha_positions, iso_positions, rev_positions) \<Rightarrow>
          if \<not> (nps_positions \<noteq> [] \<and> toxic_positions \<noteq> [] \<and> kosha_positions \<noteq> []
                \<and> iso_positions \<noteq> [] \<and> rev_positions \<noteq> []) then
            Inr ([KeywordsNotFound pdf_path], None)
          else
            bind_exn (getitem nps_positions 0) (\<lambda>(nps_page_idx, nps_rect).
            bind_exn (getitem iso_positions 0) (\<lambda>(iso_page_idx, iso_rect).
            bind_exn (getitem rev_positions 0) (\<lambda>(rev_page_idx, rev_rect).
            bind_exn (getitem doc nps_page_idx) (\<lambda>nps_page.
            bind_exn (getitem doc iso_page_idx) (\<lambda>iso_page.
            bind_exn (getitem doc rev_page_idx) (\<lambda>rev_page.
            bind_exn (layout_resolver pdf_path nps_page iso_page rev_page) (\<lambda>(out, texts).
              case texts of
                None \<Rightarrow> Inr (out, None)
              | Some (table_text, iso_no_text, rev_no_text) \<Rightarrow>
                  Inr (table_parser pdf_path table_text iso_no_text rev_no_text)))))))))"

definition extract_data_from_pdf ::
  "(pystr \<Rightarrow> exn + document) \<Rightarrow> pystr \<Rightarrow> exn + (msg list \<times> dataframe option)" where
  \<comment> \<open>the first argument is \<^verbatim>\<open>fitz.open\<close>; the result is what was printed and what is
      returned, \<open>None\<close> for Python's \<^verbatim>\<open>None\<close>\<close>
  "extract_data_from_pdf open_pdf pdf_path =
     try_except (bind_exn (open_pdf pdf_path) (extract_from_document pdf_path))
                (\<lambda>e. Inr ([PdfProcessingFailed e], None))"

section \<open>\<^verbatim>\<open>process_pdfs_in_folder\<close>\<close>

text \<open>
  The file system and the libraries the batch runs against. The prompt's answer is an
  argument of the model; the last \<^verbatim>\<open>input\<close>, which only waits, is left out.
\<close>

record os_env =
  path_exists :: "pystr \<Rightarrow> bool"
  listdir :: "pystr \<Rightarrow> exn + pystr list"
  path_join :: "pystr \<Rightarrow> pystr \<Rightarrow> pystr"
  fitz_open :: "pystr \<Rightarrow> exn + document"
  to_csv :: "pystr \<Rightarrow> dataframe \<Rightarrow> exn + unit"

fun process_files :: "os_env \<Rightarrow> pystr \<Rightarrow> pystr list \<Rightarrow> exn + (msg list \<times> dataframe list)" where
  \<comment> \<open>the loop \<^verbatim>\<open>for pdf_file in pdf_files\<close>: what it prints and \<^verbatim>\<open>all_data\<close>\<close>
  "process_files env folder_path [] = Inr ([], [])"
| "process_files env folder_path (pdf_file # pdf_files) =
     (let pdf_path = path_join env folder_path pdf_file in
      bind_exn (extract_data_from_pdf (fitz_open env) pdf_path) (\<lambda>(out, df).
      bind_exn (process_files env folder_path pdf_files) (\<lambda>(outs, all_data).
        Inr (Processing pdf_path # out @ outs,
             (case df of
                Some d \<Rightarrow> if \<not> df_empty d then d # all_data else all_data
              | None \<Rightarrow> all_data)))))"

definition select_pdf_files :: "pystr list \<Rightarrow> pystr list" where
  \<comment> \<open>\<^verbatim>\<open>[f for f in os.listdir(folder_path) if f.lower().endswith(".pdf")]\<close>\<close>
  "select_pdf_files names = filter (\<lambda>f. endswith (lower f) (str ''.pdf'')) names"

definition process_pdfs_in_folder ::
  "os_env \<Rightarrow> pystr \<Rightarrow> exn + (msg list \<times> (pystr \<times> dataframe) option)" where
  \<comment> \<open>the result is what was printed and the CSV file written, if any\<close>
  "process_pdfs_in_folder env user_input =
     (let folder_path = strip user_input in
      if \<not> path_exists env folder_path then Inr ([FolderMissing], None)
      else
        bind_exn (listdir env folder_path) (\<lambda>names.
          let pdf_files = select_pdf_files names in
          if pdf_files = [] then Inr ([NoPdfInFolder], None)
          else
            bind_exn (process_files env folder_path pdf_files) (\<lambda>(out, all_data).
              if all_data \<noteq> [] then
                bind_exn (pd_concat all_data) (\<lambda>final_df.
                  let output_csv = path_join env folder_path (str ''extracted_data.csv'') in
                  bind_exn (to_csv env output_csv final_df) (\<lambda>_.
                    Inr (out @ [CsvSaved output_csv], Some (output_csv, final_df))))
              else Inr (out @ [NothingExtracted], None))))"

section \<open>Outcomes of a document\<close>

text \<open>
  What one call of \<^verbatim>\<open>extract_data_from_pdf\<close> can print and return, and what a file of
  the batch prints and returns.
\<close>

definition outcome :: "pystr \<Rightarrow> msg list \<Rightarrow> dataframe option \<Rightarrow> bool" where
  "outcome path out res \<longleftrightarrow>
     res = None \<and> ((\<exists>e. out = [PdfProcessingFailed e]) \<or> (\<exists>e. out = [KeywordSearchFailed e])
                    \<or> out = [KeywordsNotFound path] \<or> out = [TableExtractFailed path]
                    \<or> out = [TableShapeMismatch path])
     \<or> (\<exists>df. res = Some df \<and> out = [])"

definition document_printed :: "os_env \<Rightarrow> pystr \<Rightarrow> pystr \<Rightarrow> msg list" where
  "document_printed env folder_path pdf_file =
     (case extract_data_from_pdf (fitz_open env) (path_join env folder_path pdf_file) of
        Inr (out, df) \<Rightarrow> out | Inl e \<Rightarrow> [])"

definition document_table :: "os_env \<Rightarrow> pystr \<Rightarrow> pystr \<Rightarrow> dataframe option" where
  "document_table env folder_path pdf_file =
     (case extract_data_from_pdf (fitz_open env) (path_join env folder_path pdf_file) of
        Inr (out, df) \<Rightarrow> df | Inl e \<Rightarrow> None)"

section \<open>Table texts\<close>

text \<open>
  The texts of the round trip: a line is blank, or tokens, each after a gap of
  whitespace that may be empty only before the first token, and a last gap. Lines are
  joined by newlines.
\<close>

fun join_lines :: "nat \<Rightarrow> pystr list \<Rightarrow> pystr" where
  \<comment> \<open>\<^verbatim>\<open>sep.join(lines)\<close> for a separator of one character\<close>
  "join_lines sep [] = []"
| "join_lines sep [l] = l"
| "join_lines sep (l # l' # ls) = l @ sep # join_lines sep (l' # ls)"

datatype table_line = Blank pystr | Fields "(pystr \<times> pystr) list" pystr

definition is_gap :: "pystr \<Rightarrow> bool" where
  "is_gap g = list_all (\<lambda>c. isspace c \<and> c \<noteq> newline) g"

definition is_token :: "pystr \<Rightarrow> bool" where
  "is_token t = (t \<noteq> [] \<and> list_all (\<lambda>c. \<not> isspace c) t)"

fun wf_line :: "table_line \<Rightarrow> bool" where
  "wf_line (Blank b) = is_gap b"
| "wf_line (Fields gts trail) =
     (gts \<noteq> [] \<and> list_all (\<lambda>(g, t). is_gap g \<and> is_token t) gts
      \<and> list_all (\<lambda>(g, t). g \<noteq> []) (tl gts) \<and> is_gap trail)"

fun render_line :: "table_line \<Rightarrow> pystr" where
  "render_line (Blank b) = b"
| "render_line (Fields gts trail) = concat (map (\<lambda>(g, t). g @ t) gts) @ trail"

fun render_table :: "table_line list \<Rightarrow> pystr" where
  "render_table [] = []"
| "render_table [l] = render_line l"
| "render_table (l # l' # ls) = render_line l @ newline # render_table (l' # ls)"

fun tokens_of :: "table_line list \<Rightarrow> pystr list list" where
  "tokens_of [] = []"
| "tokens_of (Blank b # ls) = tokens_of ls"
| "tokens_of (Fields gts trail # ls) = map snd gts # tokens_of ls"

section \<open>Example inputs\<close>

definition blank_page :: "int \<Rightarrow> float64 \<Rightarrow> float64 \<Rightarrow> page" where
  \<comment> \<open>a page without text\<close>
  "blank_page rot w h = \<lparr>rotation = rot, page_width = w, page_height = h,
                         search_for = (\<lambda>_. Inr []), get_text = (\<lambda>_. Inr [])\<rparr>"

definition sample_rect :: rect where
  "sample_rect = Rect (Float64 10) (Float64 20) (Float64 30) (Float64 40)"

definition a4_rot180 :: page where
  "a4_rot180 = blank_page 180 (float_literal 595) (float_literal 842)"

definition small_rect :: rect where
  "small_rect = Rect (float_literal 0.1) (float_literal 0.1) (float_literal 0.2) (float_literal 0.2)"

definition half_rect :: rect where
  "half_rect = Rect (float_literal 0.5) (float_literal 0.5) (float_literal 100) (float_literal 200)"

definition anchor_page :: page where
  "anchor_page = (blank_page 0 (float_literal 595) (float_literal 842))
     \<lparr>search_for := (\<lambda>kw. if kw = str ''NPS'' then Inr [small_rect, half_rect] else Inr [])\<rparr>"

definition row19 :: "pystr list" where
  "row19 = map (\<lambda>s. str s) [''1/2'', ''A1'', ''10'', ''40'', ''15'', ''60'', ''22'', ''W'', ''N'', ''0'',
     ''-'', ''N'', ''N'', ''Y'', ''N'', ''P1'', ''N'', ''N'', ''N'']"

definition line19 :: table_line where
  "line19 = Fields (([], hd row19) # map (\<lambda>t. (str '' '', t)) (tl row19)) []"

definition line18 :: table_line where
  "line18 = Fields ((str ''  '', hd row19) # map (\<lambda>t. ([9, 32], t)) (butlast (tl row19))) [13]"

definition sample_lines :: "table_line list" where
  "sample_lines = [line19, Blank [], line19, Blank (str ''  ''), line19]"

definition bad_lines :: "table_line list" where
  "bad_lines = [line19, line19, line18, line19]"

definition sample_path :: pystr where
  "sample_path = str ''in/a.pdf''"

text \<open>
  Pages of 595 by 842 points at rotation 0, given by their search and their clipped
  text. \<open>five_keywords\<close> finds one anchor for each of the five keywords of the program
  and none for any other string; \<open>region_text\<close> gives the texts of the six regions of the
  two coordinate sets. The documents of the example folder \<^verbatim>\<open>in\<close>: \<^verbatim>\<open>a.pdf\<close> has three
  rows in the table region of the first set, \<^verbatim>\<open>b.pdf\<close> has one row in the table region
  of the second set only, \<^verbatim>\<open>C.PDF\<close> cannot be opened, \<^verbatim>\<open>d.pdf\<close> lacks the keyword
  \<^verbatim>\<open>REV. NO\<close>, \<^verbatim>\<open>e.pdf\<close> has a row of 18 fields among rows of 19, \<^verbatim>\<open>f.pdf\<close> has no text,
  in \<^verbatim>\<open>g.pdf\<close> the search for \<^verbatim>\<open>NPS\<close> raises, in \<^verbatim>\<open>h.pdf\<close> the text extraction raises.
\<close>

definition text_page :: "(pystr \<Rightarrow> exn + rect list) \<Rightarrow> (rect \<Rightarrow> exn + pystr) \<Rightarrow> page" where
  "text_page s g = \<lparr>rotation = 0, page_width = float_literal 595, page_height = float_literal 842,
                    search_for = s, get_text = g\<rparr>"

definition five_keywords :: "pystr \<Rightarrow> exn + rect list" where
  "five_keywords kw =
     (if kw \<in> set (map (\<lambda>s. str s) [''NPS'', ''TOXIC'', ''KOSHA'', ''ISO DWG. NO.'', ''REV. NO''])
      then Inr [small_rect] else Inr [])"

definition region_text ::
  "pystr \<Rightarrow> pystr \<Rightarrow> pystr \<Rightarrow> pystr \<Rightarrow> pystr \<Rightarrow> pystr \<Rightarrow> rect \<Rightarrow> exn + pystr" where
  "region_text ta ia ra tb ib rb clip =
     (if clip = table_rect_set1 then Inr ta
      else if clip = iso_no_rect_set1 then Inr ia
      else if clip = rev_no_rect_set1 then Inr ra
      else if clip = table_rect_set2 then Inr tb
      else if clip = iso_no_rect_set2 then Inr ib
      else if clip = rev_no_rect_set2 then Inr rb
      else Inr [])"

definition both_page :: page where
  "both_page = text_page five_keywords
     (region_text (str ''T1'') (str '' ISO-1'') (str ''A'') (str ''T2'') (str ''ISO-2'') (str ''B''))"

definition fallback_page :: page where
  "fallback_page = text_page five_keywords
     (region_text (str ''  '') (str ''ISO-1'') (str ''A'') (str ''T2'') (str ''ISO-2 '') (str ''B''))"

definition textless_page :: page where
  "textless_page = text_page five_keywords (\<lambda>clip. Inr [])"

definition good_page_a :: page where
  "good_page_a = text_page five_keywords
     (region_text (render_table sample_lines) (str ''ISO-1'') (str ''A'')
                  (str ''T2'') (str ''ISO-2'') (str ''B''))"

definition one_line :: "table_line list" where
  "one_line = [line19]"

definition good_page_b :: page where
  "good_page_b = text_page five_keywords
     (region_text (str ''  '') (str ''ISO-1'') (str ''A'')
                  (render_table one_line) (str ''ISO-2'') (str ''B''))"

definition bad_page :: page where
  "bad_page = text_page five_keywords
     (region_text (render_table bad_lines) (str ''ISO-1'') (str ''A'') [] [] [])"

definition missing_rev_page :: page where
  "missing_rev_page = text_page (\<lambda>kw. if kw = str ''REV. NO'' then Inr [] else five_keywords kw)
     (region_text (render_table sample_lines) (str ''ISO-1'') (str ''A'') [] [] [])"

definition search_raises_page :: page where
  "search_raises_page = text_page
     (\<lambda>kw. if kw = str ''NPS'' then Inl (RuntimeError (str ''search''))
            else if kw = str ''REV. NO'' then Inr [] else five_keywords kw)
     (region_text (render_table sample_lines) (str ''ISO-1'') (str ''A'') [] [] [])"

definition clip_raises_page :: page where
  "clip_raises_page = text_page five_keywords (\<lambda>clip. Inl (RuntimeError (str ''clip'')))"

definition sample_open :: "pystr \<Rightarrow> exn + document" where
  "sample_open p =
     (if p = str ''in/a.pdf'' then Inr [good_page_a]
      else if p = str ''in/b.pdf'' then Inr [good_page_b]
      else if p = str ''in/C.PDF'' then Inl (OSError (str ''cannot open''))
      else if p = str ''in/d.pdf'' then Inr [missing_rev_page]
      else if p = str ''in/e.pdf'' then Inr [bad_page]
      else if p = str ''in/f.pdf'' then Inr [textless_page]
      else if p = str ''in/g.pdf'' then Inr [search_raises_page]
      else if p = str ''in/h.pdf'' then Inr [clip_raises_page]
      else Inl (OSError (str ''no such file'')))"

definition sample_env :: "pystr list \<Rightarrow> os_env" where
  "sample_env names =
     \<lparr>path_exists = (\<lambda>p. p = str ''in''), listdir = (\<lambda>p. Inr names),
      path_join = (\<lambda>d f. d @ str ''/'' @ f), fitz_open = sample_open,
      to_csv = (\<lambda>p d. Inr ())\<rparr>"

definition frame_a :: dataframe where
  "frame_a = \<lparr>df_columns = columns @ [str ''ISO_NO'', str ''REV.NO''],
              df_rows = [row19 @ [str ''ISO-1'', str ''A''], row19 @ [str ''ISO-1'', str ''A''],
                         row19 @ [str ''ISO-1'', str ''A'']]\<rparr>"

definition frame_b :: dataframe where
  "frame_b = \<lparr>df_columns = columns @ [str ''ISO_NO'', str ''REV.NO''],
              df_rows = [row19 @ [str ''ISO-2'', str ''B'']]\<rparr>"

definition listing :: "pystr list" where
  "listing = map (\<lambda>s. str s) [''b.pdf'', ''notes.txt'', ''C.PDF'', ''a.pdf'']"

definition final_ba :: dataframe where
  "final_ba = \<lparr>df_columns = columns @ [str ''ISO_NO'', str ''REV.NO''],
               df_rows = df_rows frame_b @ df_rows frame_a\<rparr>"

definition failing_listing :: "pystr list" where
  "failing_listing = map (\<lambda>s. str s) [''C.PDF'', ''d.pdf'']"

section \<open>The float model and the string operations on their own\<close>

text \<open>
  The rounding gives the doubles Python prints as \<^verbatim>\<open>0.1\<close> and \<^verbatim>\<open>39.89999771118164\<close>, and
  \<^verbatim>\<open>1 - 0.9\<close> is \<^verbatim>\<open>0.09999999999999998\<close>.
\<close>

lemma float_literal_examples:
  "round64 (1 / 10) = 3602879701896397 / 36028797018963968"
  "round64 39.89999771118164 = 10459545 / 262144"
  "Float64 1 - Float64 (round64 (9 / 10)) = Float64 (900719925474099 / 9007199254740992)"
  by code_simp+

text \<open>
  The fields of \<open>split_ws\<close> are not empty, hold no whitespace, and together are the
  characters of the string that are not whitespace. The pieces of \<open>split_on\<close> hold no
  separator and joined by the separator give the string back.
\<close>

lemma split_ws_fields:
  "f \<in> set (split_ws s) \<Longrightarrow> f \<noteq> [] \<and> (\<forall>c \<in> set f. \<not> isspace c)"
proof (induction s rule: split_ws.induct)
  case 1
  then show ?case by simp
next
  case (2 c cs)
  show ?case
  proof (cases "isspace c")
    case True
    with "2.prems" have "f \<in> set (split_ws cs)"
      by simp
    with True "2.IH"(1) show ?thesis
      by blast
  next
    case False
    with "2.prems" consider "f = c # takeWhile (\<lambda>d. \<not> isspace d) cs"
      | "f \<in> set (split_ws (dropWhile (\<lambda>d. \<not> isspace d) cs))"
      by auto
    then show ?thesis
    proof cases
      case 1
      have "\<forall>x \<in> set (takeWhile (\<lambda>d. \<not> isspace d) cs). \<not> isspace x"
        by (blast dest: set_takeWhileD)
      with 1 False show ?thesis
        by simp
    next
      case 2
      with False "2.IH"(2) show ?thesis
        by blast
    qed
  qed
qed

lemma concat_split_ws: "concat (split_ws s) = filter (\<lambda>c. \<not> isspace c) s"
proof (induction s rule: split_ws.induct)
  case 1
  then show ?case by simp
next
  case (2 c cs)
  let ?Q = "\<lambda>d. \<not> isspace d"
  have "\<forall>x \<in> set (takeWhile ?Q cs). ?Q x"
    by (auto dest: set_takeWhileD)
  then have t: "filter ?Q (takeWhile ?Q cs) = takeWhile ?Q cs"
    by (rule filter_True)
  have "filter ?Q cs = filter ?Q (takeWhile ?Q cs @ dropWhile ?Q cs)"
    by simp
  also have "\<dots> = takeWhile ?Q cs @ filter ?Q (dropWhile ?Q cs)"
    by (simp only: filter_append t)
  finally have "filter ?Q cs = takeWhile ?Q cs @ filter ?Q (dropWhile ?Q cs)" .
  with 2 show ?case
    by simp
qed

lemma split_on_lines: "l \<in> set (split_on sep s) \<Longrightarrow> sep \<notin> set l"
proof (induction sep s rule: split_on.induct)
  case (1 sep s)
  show ?case
  proof (cases "dropWhile (\<lambda>c. c \<noteq> sep) s")
    case Nil
    then have "split_on sep s = [s]"
      by (subst split_on.simps) (simp only: list.case)
    moreover from Nil have "sep \<notin> set s"
      by (auto simp: dropWhile_eq_Nil_conv)
    ultimately show ?thesis using "1.prems" by simp
  next
    case (Cons d rest)
    then have "split_on sep s = takeWhile (\<lambda>c. c \<noteq> sep) s # split_on sep rest"
      by (subst split_on.simps) (simp only: list.case)
    with "1.prems" "1.IH" [OF Cons] show ?thesis
      by (auto dest: set_takeWhileD)
  qed
qed

lemma split_on_ne: "split_on sep s \<noteq> []"
  by (subst split_on.simps) (simp split: list.splits)

lemma join_split_on: "join_lines sep (split_on sep s) = s"
proof (induction sep s rule: split_on.induct)
  case (1 sep s)
  show ?case
  proof (cases "dropWhile (\<lambda>c. c \<noteq> sep) s")
    case Nil
    then have "split_on sep s = [s]"
      by (subst split_on.simps) (simp only: list.case)
    then show ?thesis by simp
  next
    case (Cons d rest)
    then have eq: "split_on sep s = takeWhile (\<lambda>c. c \<noteq> sep) s # split_on sep rest"
      by (subst split_on.simps) (simp only: list.case)
    have d: "d = sep"
      using Cons hd_dropWhile [of "\<lambda>c. c \<noteq> sep" s] by simp
    have s: "takeWhile (\<lambda>c. c \<noteq> sep) s @ sep # rest = s"
      using Cons d takeWhile_dropWhile_id [of "\<lambda>c. c \<noteq> sep" s] by simp
    obtain k ks where ks: "split_on sep rest = k # ks"
      using split_on_ne [of sep rest] by (cases "split_on sep rest") auto
    with "1.IH" [OF Cons] have "join_lines sep (k # ks) = rest"
      by simp
    with eq ks s show ?thesis
      by simp
  qed
qed

section \<open>Properties of the geometry correction\<close>

lemma bind_exn_simps [simp]:
  "bind_exn (Inl e) f = Inl e" "bind_exn (Inr v) f = f v"
  by (simp_all add: bind_exn_def)

lemma rect_eq_iff:
  "(Rect a b c d = r) = (a = x0 r \<and> b = y0 r \<and> c = x1 r \<and> d = y1 r)"
  by (cases r) (auto simp: Rect_def)

text \<open>
  Claim C2. \<^verbatim>\<open>get_corrected_rect\<close> returns the rectangle unchanged at rotation 0,
  \<open>(y0, w - x1, y1, w - x0)\<close> at 90, \<open>(w - x1, h - y1, w - x0, h - y0)\<close> at 180,
  \<open>(h - y1, x0, h - y0, x1)\<close> at 270, and the rectangle unchanged at every other
  rotation value. The result depends on the page only through its rotation, width and
  height. The subtraction is the one of Python floats.
\<close>

theorem get_corrected_rect_rotations:
  "(rotation p = 0 \<longrightarrow> get_corrected_rect p r = r) \<and>
   (rotation p = 90 \<longrightarrow>
      get_corrected_rect p r = Rect (y0 r) (page_width p - x1 r) (y1 r) (page_width p - x0 r)) \<and>
   (rotation p = 180 \<longrightarrow>
      get_corrected_rect p r = Rect (page_width p - x1 r) (page_height p - y1 r)
                                    (page_width p - x0 r) (page_height p - y0 r)) \<and>
   (rotation p = 270 \<longrightarrow>
      get_corrected_rect p r = Rect (page_height p - y1 r) (x0 r) (page_height p - y0 r) (x1 r)) \<and>
   (rotation p \<notin> {0, 90, 180, 270} \<longrightarrow> get_corrected_rect p r = r) \<and>
   (rotation p' = rotation p \<and> page_width p' = page_width p \<and> page_height p' = page_height p \<longrightarrow>
      get_corrected_rect p' r = get_corrected_rect p r)"
  by (simp add: get_corrected_rect_def)

theorem get_corrected_rect_rotations_witness:
  "get_corrected_rect (blank_page 0 (Float64 595) (Float64 842)) sample_rect = sample_rect \<and>
   get_corrected_rect (blank_page 90 (Float64 595) (Float64 842)) sample_rect
     = Rect (Float64 20) (Float64 595 - Float64 30) (Float64 40) (Float64 595 - Float64 10) \<and>
   get_corrected_rect (blank_page 180 (Float64 595) (Float64 842)) sample_rect
     = Rect (Float64 595 - Float64 30) (Float64 842 - Float64 40)
            (Float64 595 - Float64 10) (Float64 842 - Float64 20) \<and>
   get_corrected_rect (blank_page 270 (Float64 595) (Float64 842)) sample_rect
     = Rect (Float64 842 - Float64 40) (Float64 10) (Float64 842 - Float64 20) (Float64 30) \<and>
   get_corrected_rect (blank_page 45 (Float64 595) (Float64 842)) sample_rect = sample_rect \<and>
   get_corrected_rect (blank_page 90 (Float64 595) (Float64 842)) sample_rect
     = get_corrected_rect
         ((blank_page 90 (Float64 595) (Float64 842))\<lparr>get_text := (\<lambda>_. Inl ValueError)\<rparr>)
         sample_rect"
  using get_corrected_rect_rotations [of "blank_page 0 (Float64 595) (Float64 842)" sample_rect]
    get_corrected_rect_rotations [of "blank_page 90 (Float64 595) (Float64 842)" sample_rect
       "(blank_page 90 (Float64 595) (Float64 842))\<lparr>get_text := (\<lambda>_. Inl ValueError)\<rparr>"]
    get_corrected_rect_rotations [of "blank_page 180 (Float64 595) (Float64 842)" sample_rect]
    get_corrected_rect_rotations [of "blank_page 270 (Float64 595) (Float64 842)" sample_rect]
    get_corrected_rect_rotations [of "blank_page 45 (Float64 595) (Float64 842)" sample_rect]
  by (simp add: blank_page_def sample_rect_def Rect_def)

lemma find_text_position_from_unrotated:
  "\<forall>q \<in> set doc. rotation q = 0 \<and> search_for q kw = Inr (raw q) \<Longrightarrow>
   find_text_position_from i doc kw
     = Inr (concat (map (\<lambda>(j, q). map (Pair j) (raw q)) (enumerate i doc)))"
  by (induction doc arbitrary: i) (simp_all add: get_corrected_rect_def)

text \<open>
  Claim C6, as stated, fails for the second correction at rotation 180: on a page of
  595 by 842 points the rectangle \<open>(0.1, 0.1, 0.2, 0.2)\<close> comes back as
  \<open>(0.10000000000002274, 0.10000000000002274, 0.20000000000004547, 0.20000000000004547)\<close>,
  because each subtraction rounds.
\<close>

theorem rot180_twice_counterexample:
  "get_corrected_rect a4_rot180 (get_corrected_rect a4_rot180 small_rect)
     = Rect (Float64 (879609302221 / 8796093022208)) (Float64 (879609302221 / 8796093022208))
            (Float64 (879609302221 / 4398046511104)) (Float64 (879609302221 / 4398046511104)) \<and>
   get_corrected_rect a4_rot180 (get_corrected_rect a4_rot180 small_rect) \<noteq> small_rect"
  by code_simp

text \<open>
  Claim C6, amended. Correcting at rotation 0 returns the identical rectangle.
  Correcting at rotation 180 twice returns the original rectangle exactly when the
  subtractions lose nothing, that is \<open>w - (w - x) = x\<close> for both horizontal coordinates
  and \<open>h - (h - y) = y\<close> for both vertical ones. For a document whose pages all have
  rotation 0, the anchors that \<^verbatim>\<open>find_text_position\<close> returns are the rectangles of
  the page searches themselves, page by page, in order.
\<close>

theorem get_corrected_rect_self_consistent:
  "(rotation p = 0 \<longrightarrow> get_corrected_rect p r = r) \<and>
   (rotation p = 180 \<longrightarrow>
      (get_corrected_rect p (get_corrected_rect p r) = r \<longleftrightarrow>
         page_width p - (page_width p - x0 r) = x0 r \<and>
         page_width p - (page_width p - x1 r) = x1 r \<and>
         page_height p - (page_height p - y0 r) = y0 r \<and>
         page_height p - (page_height p - y1 r) = y1 r)) \<and>
   ((\<forall>q \<in> set doc. rotation q = 0 \<and> search_for q kw = Inr (raw q)) \<longrightarrow>
      find_text_position doc kw
        = Inr (concat (map (\<lambda>(i, q). map (Pair i) (raw q)) (enumerate 0 doc))))"
proof (intro conjI impI)
  assume "rotation p = 0"
  then show "get_corrected_rect p r = r"
    by (simp add: get_corrected_rect_def)
next
  assume "rotation p = 180"
  then show "get_corrected_rect p (get_corrected_rect p r) = r \<longleftrightarrow>
         page_width p - (page_width p - x0 r) = x0 r \<and>
         page_width p - (page_width p - x1 r) = x1 r \<and>
         page_height p - (page_height p - y0 r) = y0 r \<and>
         page_height p - (page_height p - y1 r) = y1 r"
    by (auto simp: get_corrected_rect_def rect_eq_iff) (simp_all add: Rect_def)
next
  assume "\<forall>q \<in> set doc. rotation q = 0 \<and> search_for q kw = Inr (raw q)"
  then show "find_text_position doc kw
        = Inr (concat (map (\<lambda>(i, q). map (Pair i) (raw q)) (enumerate 0 doc)))"
    unfolding find_text_position_def by (rule find_text_position_from_unrotated)
qed

theorem get_corrected_rect_self_consistent_witness:
  "get_corrected_rect anchor_page small_rect = small_rect \<and>
   get_corrected_rect a4_rot180 (get_corrected_rect a4_rot180 half_rect) = half_rect \<and>
   find_text_position [anchor_page, anchor_page] (str ''NPS'')
     = Inr [(0, small_rect), (0, half_rect), (1, small_rect), (1, half_rect)]"
proof -
  have exact: "page_width a4_rot180 - (page_width a4_rot180 - x0 half_rect) = x0 half_rect \<and>
         page_width a4_rot180 - (page_width a4_rot180 - x1 half_rect) = x1 half_rect \<and>
         page_height a4_rot180 - (page_height a4_rot180 - y0 half_rect) = y0 half_rect \<and>
         page_height a4_rot180 - (page_height a4_rot180 - y1 half_rect) = y1 half_rect"
    by code_simp
  have rot: "rotation a4_rot180 = 180" "rotation anchor_page = 0"
    by (simp_all add: a4_rot180_def anchor_page_def blank_page_def)
  have pages: "\<forall>q \<in> set [anchor_page, anchor_page].
      rotation q = 0 \<and> search_for q (str ''NPS'') = Inr ((\<lambda>_. [small_rect, half_rect]) q)"
    by (simp add: anchor_page_def blank_page_def)
  show ?thesis
    using get_corrected_rect_self_consistent [of anchor_page small_rect "[anchor_page, anchor_page]"
            "str ''NPS''" "\<lambda>_. [small_rect, half_rect]"]
          get_corrected_rect_self_consistent [of a4_rot180 half_rect "[]" "[]" "\<lambda>_. []"]
          exact rot pages
    by (simp add: enumerate_eq_zip)
qed

section \<open>Properties of the string operations\<close>

lemma strip_empty_iff: "strip s = [] \<longleftrightarrow> (\<forall>c \<in> set s. isspace c)"
proof
  assume "strip s = []"
  then have all: "\<forall>c \<in> set (dropWhile isspace s). isspace c"
    by (simp add: strip_def dropWhile_eq_Nil_conv)
  have "dropWhile isspace s = []"
  proof (rule ccontr)
    assume ne: "dropWhile isspace s \<noteq> []"
    then have "\<not> isspace (hd (dropWhile isspace s))"
      by (rule hd_dropWhile)
    moreover from ne have "hd (dropWhile isspace s) \<in> set (dropWhile isspace s)"
      by simp
    ultimately show False using all by blast
  qed
  then show "\<forall>c \<in> set s. isspace c"
    by (simp add: dropWhile_eq_Nil_conv)
next
  assume "\<forall>c \<in> set s. isspace c"
  then have "dropWhile isspace s = []"
    by (simp add: dropWhile_eq_Nil_conv)
  then show "strip s = []"
    by (simp only: strip_def rev.simps dropWhile.simps)
qed

lemma split_on_no_sep: "sep \<notin> set a \<Longrightarrow> split_on sep a = [a]"
proof -
  assume "sep \<notin> set a"
  then have "dropWhile (\<lambda>c. c \<noteq> sep) a = []"
    by (auto simp: dropWhile_eq_Nil_conv)
  then show ?thesis
    by (subst split_on.simps) (simp only: list.case)
qed

lemma split_on_append:
  assumes "sep \<notin> set a"
  shows "split_on sep (a @ sep # rest) = a # split_on sep rest"
proof -
  from assms have ne: "\<And>c. c \<in> set a \<Longrightarrow> c \<noteq> sep"
    by auto
  have d: "dropWhile (\<lambda>c. c \<noteq> sep) (a @ sep # rest) = sep # rest"
    using ne by (simp add: dropWhile_append2)
  have t: "takeWhile (\<lambda>c. c \<noteq> sep) (a @ sep # rest) = a"
    using ne by (simp add: takeWhile_append2)
  show ?thesis
    by (subst split_on.simps) (simp add: d t)
qed

lemma split_ws_gap: "\<forall>c \<in> set g. isspace c \<Longrightarrow> split_ws (g @ s) = split_ws s"
  by (induction g) simp_all

lemma split_ws_token:
  assumes "t \<noteq> []" and "\<forall>c \<in> set t. \<not> isspace c" and "s = [] \<or> isspace (hd s)"
  shows "split_ws (t @ s) = t # split_ws s"
proof -
  from assms(1) obtain c t' where t: "t = c # t'"
    by (cases t) auto
  from assms(2) t have c: "\<not> isspace c" and t': "\<And>d. d \<in> set t' \<Longrightarrow> \<not> isspace d"
    by auto
  from assms(3) have tw: "takeWhile (\<lambda>d. \<not> isspace d) s = []"
    and dw: "dropWhile (\<lambda>d. \<not> isspace d) s = s"
    by (cases s; auto)+
  have "takeWhile (\<lambda>d. \<not> isspace d) (t' @ s) = t'"
    using t' tw by (simp add: takeWhile_append2)
  moreover have "dropWhile (\<lambda>d. \<not> isspace d) (t' @ s) = s"
    using t' dw by (simp add: dropWhile_append2)
  ultimately show ?thesis
    using c t by simp
qed

lemma split_ws_spaces: "\<forall>c \<in> set g. isspace c \<Longrightarrow> split_ws g = []"
  using split_ws_gap [of g "[]"] by simp

lemma is_gap_space: "is_gap g \<Longrightarrow> c \<in> set g \<Longrightarrow> isspace c"
  by (simp add: is_gap_def list_all_iff)

lemma is_gap_newline: "is_gap g \<Longrightarrow> newline \<notin> set g"
  by (auto simp: is_gap_def list_all_iff)

lemma is_token_newline: "is_token t \<Longrightarrow> newline \<notin> set t"
  by (auto simp: is_token_def list_all_iff isspace_def newline_def)

lemma split_ws_fields_gapped:
  "list_all (\<lambda>(g, t). is_gap g \<and> is_token t) gts \<Longrightarrow> list_all (\<lambda>(g, t). g \<noteq> []) gts \<Longrightarrow>
   is_gap trail \<Longrightarrow>
   split_ws (concat (map (\<lambda>(g, t). g @ t) gts) @ trail) = map snd gts
   \<and> (concat (map (\<lambda>(g, t). g @ t) gts) @ trail = []
        \<or> isspace (hd (concat (map (\<lambda>(g, t). g @ t) gts) @ trail)))"
proof (induction gts)
  case Nil
  then show ?case
    by (cases trail) (auto simp: split_ws_spaces is_gap_space)
next
  case (Cons gt gts)
  obtain g t where gt: "gt = (g, t)" by (cases gt)
  let ?rest = "concat (map (\<lambda>(g, t). g @ t) gts) @ trail"
  from Cons.prems gt have g: "is_gap g" "g \<noteq> []" and t: "is_token t"
    by auto
  from Cons have IH: "split_ws ?rest = map snd gts" "?rest = [] \<or> isspace (hd ?rest)"
    by auto
  have "split_ws (g @ t @ ?rest) = split_ws (t @ ?rest)"
    using g by (intro split_ws_gap) (auto simp: is_gap_space)
  also have "\<dots> = t # split_ws ?rest"
    using t IH(2) by (intro split_ws_token) (auto simp: is_token_def list_all_iff)
  finally have "split_ws (g @ t @ ?rest) = t # map snd gts"
    using IH(1) by simp
  moreover have "isspace (hd (g @ t @ ?rest))"
    using g by (cases g) (auto simp: is_gap_space)
  ultimately show ?case
    using gt by simp
qed

lemma split_ws_render_line:
  assumes "wf_line (Fields gts trail)"
  shows "split_ws (render_line (Fields gts trail)) = map snd gts"
proof -
  from assms obtain g t rest where gts: "gts = (g, t) # rest"
    by (cases gts) auto
  let ?rest = "concat (map (\<lambda>(g, t). g @ t) rest) @ trail"
  from assms gts have g: "is_gap g" and t: "is_token t"
    and rest: "list_all (\<lambda>(g, t). is_gap g \<and> is_token t) rest" "list_all (\<lambda>(g, t). g \<noteq> []) rest"
    and trail: "is_gap trail"
    by auto
  from split_ws_fields_gapped [OF rest trail]
  have R: "split_ws ?rest = map snd rest" "?rest = [] \<or> isspace (hd ?rest)"
    by auto
  have "split_ws (g @ t @ ?rest) = split_ws (t @ ?rest)"
    using g by (intro split_ws_gap) (auto simp: is_gap_space)
  also have "\<dots> = t # split_ws ?rest"
    using t R(2) by (intro split_ws_token) (auto simp: is_token_def list_all_iff)
  finally show ?thesis
    using R(1) gts by simp
qed

lemma render_line_no_newline: "wf_line l \<Longrightarrow> newline \<notin> set (render_line l)"
proof (cases l)
  case (Blank b)
  assume "wf_line l"
  with Blank show ?thesis by (simp add: is_gap_newline)
next
  case (Fields gts trail)
  assume "wf_line l"
  with Fields have "\<forall>(g, t) \<in> set gts. is_gap g \<and> is_token t" "is_gap trail"
    by (auto simp: list_all_iff)
  then show ?thesis
    using Fields by (auto dest: is_gap_newline is_token_newline)
qed

lemma split_on_render_table:
  "ls \<noteq> [] \<Longrightarrow> list_all wf_line ls \<Longrightarrow> split_on newline (render_table ls) = map render_line ls"
proof (induction ls rule: render_table.induct)
  case 1
  then show ?case by simp
next
  case (2 l)
  then show ?case by (simp add: split_on_no_sep render_line_no_newline)
next
  case (3 l l' ls)
  then show ?case by (simp add: split_on_append render_line_no_newline)
qed

lemma strip_render_line:
  "wf_line l \<Longrightarrow> strip (render_line l) = [] \<longleftrightarrow> (\<exists>b. l = Blank b)"
proof (cases l)
  case (Blank b)
  assume "wf_line l"
  with Blank show ?thesis
    by (auto simp: strip_empty_iff is_gap_space)
next
  case (Fields gts trail)
  assume wf: "wf_line l"
  with Fields obtain g t rest where gts: "gts = (g, t) # rest"
    by (cases gts) auto
  with wf Fields have "is_token t" by simp
  then obtain c where "c \<in> set t" "\<not> isspace c"
    by (cases t) (auto simp: is_token_def)
  then have "\<not> (\<forall>c \<in> set (render_line l). isspace c)"
    using Fields gts by auto
  then show ?thesis
    using Fields by (simp add: strip_empty_iff)
qed

lemma table_rows_render_table:
  "ls \<noteq> [] \<Longrightarrow> list_all wf_line ls \<Longrightarrow> table_rows (render_table ls) = tokens_of ls"
proof -
  assume ne: "ls \<noteq> []" and wf: "list_all wf_line ls"
  have "list_all wf_line ks \<Longrightarrow>
        map split_ws (filter (\<lambda>line. strip line \<noteq> []) (map render_line ks)) = tokens_of ks" for ks
  proof (induction ks rule: tokens_of.induct)
    case 1
    then show ?case by simp
  next
    case (2 b ls)
    then show ?case using strip_render_line [of "Blank b"] by simp
  next
    case (3 gts trail ls)
    then show ?case
      using strip_render_line [of "Fields gts trail"] split_ws_render_line [of gts trail]
      by simp
  qed
  with ne wf show ?thesis
    by (simp add: table_rows_def split_on_render_table)
qed

section \<open>Properties of the table parser\<close>

lemma length_columns: "length columns = 19"
  by (simp add: columns_def)

lemma new_columns:
  "str ''ISO_NO'' \<notin> set columns" "str ''REV.NO'' \<notin> set (columns @ [str ''ISO_NO''])"
  by (simp_all add: columns_def)

lemma table_parser_accepts:
  assumes "table_rows text \<noteq> []" and "\<forall>r \<in> set (table_rows text). length r = 19"
  shows "table_parser path text iso_no rev_no
           = ([], Some \<lparr>df_columns = columns @ [str ''ISO_NO'', str ''REV.NO''],
                        df_rows = map (\<lambda>r. r @ [iso_no, rev_no]) (table_rows text)\<rparr>)"
proof -
  have "\<not> list_ex (\<lambda>r. length r \<noteq> length columns) (table_rows text)"
    using assms(2) by (simp add: list_ex_iff length_columns)
  then show ?thesis
    using assms(1) new_columns
    by (simp add: table_parser_def Let_def setitem_def DataFrame_def)
qed

text \<open>
  Claim C3. The parser fails exactly when no row remains after the blank lines are
  dropped (it then reports the empty table) or some row does not have 19 fields (it
  then reports the shape mismatch); either way it returns no table at all. The rows
  are the whitespace-split lines that contain a character other than whitespace.
\<close>

theorem table_parser_rejects_iff:
  "(snd (table_parser path text iso_no rev_no) = None \<longleftrightarrow>
      table_rows text = [] \<or> (\<exists>r \<in> set (table_rows text). length r \<noteq> 19)) \<and>
   (table_rows text = [] \<longrightarrow> table_parser path text iso_no rev_no = ([TableEmpty path], None)) \<and>
   (table_rows text \<noteq> [] \<and> (\<exists>r \<in> set (table_rows text). length r \<noteq> 19) \<longrightarrow>
      table_parser path text iso_no rev_no = ([TableShapeMismatch path], None)) \<and>
   table_rows text
     = map split_ws (filter (\<lambda>line. \<exists>c \<in> set line. \<not> isspace c) (split_on newline text))"
  by (auto simp: table_parser_def Let_def list_ex_iff length_columns table_rows_def strip_empty_iff)

text \<open>
  Claim C4. Round trip: a text of lines, each either blank or 19 tokens separated by
  whitespace, with at least one line of tokens, is parsed into exactly the rows of
  tokens, in order, each followed by the ISO and revision texts.
\<close>

theorem table_parser_round_trip:
  assumes "list_all wf_line ls" and "tokens_of ls \<noteq> []"
    and "list_all (\<lambda>r. length r = 19) (tokens_of ls)"
  shows "table_parser path (render_table ls) iso_no rev_no
           = ([], Some \<lparr>df_columns = columns @ [str ''ISO_NO'', str ''REV.NO''],
                        df_rows = map (\<lambda>r. r @ [iso_no, rev_no]) (tokens_of ls)\<rparr>)
         \<and> table_rows (render_table ls) = tokens_of ls"
proof -
  from assms(2) have "ls \<noteq> []" by auto
  with assms(1) have rows: "table_rows (render_table ls) = tokens_of ls"
    by (rule table_rows_render_table [rotated])
  with assms(2,3) show ?thesis
    by (simp add: table_parser_accepts list_all_iff)
qed

section \<open>Properties of the layout choice\<close>

lemma find_text_position_from_index:
  "find_text_position_from i doc kw = Inr ps \<Longrightarrow> (j, r) \<in> set ps \<Longrightarrow> i \<le> j \<and> j < i + length doc"
proof (induction doc arbitrary: i ps)
  case Nil
  then show ?case by simp
next
  case (Cons p doc)
  from Cons.prems(1) obtain bboxes positions where
    rest: "find_text_position_from (Suc i) doc kw = Inr positions"
    and ps: "ps = map (\<lambda>bbox. (i, get_corrected_rect p bbox)) bboxes @ positions"
    by (auto simp: bind_exn_def split: sum.splits)
  from Cons.prems(2) ps consider "j = i" | "(j, r) \<in> set positions"
    by auto
  then show ?case
  proof cases
    case 1
    then show ?thesis by simp
  next
    case 2
    with Cons.IH [OF rest] show ?thesis by simp
  qed
qed

lemma find_text_position_hd:
  assumes "find_text_position doc kw = Inr ps" and "ps \<noteq> []"
  shows "fst (hd ps) < length doc"
proof -
  from assms(2) have "(fst (hd ps), snd (hd ps)) \<in> set ps"
    by simp
  with assms(1) show ?thesis
    unfolding find_text_position_def
    using find_text_position_from_index [of 0 doc kw ps "fst (hd ps)" "snd (hd ps)"] by simp
qed

lemma find_keywords_Inr_iff:
  "find_keywords doc = Inr (nps, toxic, kosha, iso_no, rev_no) \<longleftrightarrow>
     find_text_position doc (str ''NPS'') = Inr nps \<and>
     find_text_position doc (str ''TOXIC'') = Inr toxic \<and>
     find_text_position doc (str ''KOSHA'') = Inr kosha \<and>
     find_text_position doc (str ''ISO DWG. NO.'') = Inr iso_no \<and>
     find_text_position doc (str ''REV. NO'') = Inr rev_no"
  unfolding find_keywords_def bind_exn_def
  by (auto split: sum.splits)

lemma getitem_hd: "xs \<noteq> [] \<Longrightarrow> getitem xs 0 = Inr (hd xs)"
  by (cases xs) (simp_all add: getitem_def)

lemma getitem_in_range: "i < length xs \<Longrightarrow> getitem xs i = Inr (xs ! i)"
  by (simp add: getitem_def)

lemma extract_from_document_found:
  assumes kw: "find_keywords doc = Inr (nps, toxic, kosha, iso_no, rev_no)"
    and ne: "nps \<noteq> []" "toxic \<noteq> []" "kosha \<noteq> []" "iso_no \<noteq> []" "rev_no \<noteq> []"
  shows "extract_from_document path doc =
     bind_exn (layout_resolver path (doc ! fst (hd nps)) (doc ! fst (hd iso_no)) (doc ! fst (hd rev_no)))
       (\<lambda>(out, texts). case texts of
           None \<Rightarrow> Inr (out, None)
         | Some (table_text, iso_no_text, rev_no_text) \<Rightarrow>
             Inr (table_parser path table_text iso_no_text rev_no_text))"
proof -
  from kw have f: "find_text_position doc (str ''NPS'') = Inr nps"
    "find_text_position doc (str ''ISO DWG. NO.'') = Inr iso_no"
    "find_text_position doc (str ''REV. NO'') = Inr rev_no"
    by (simp_all add: find_keywords_Inr_iff)
  have idx: "fst (hd nps) < length doc" "fst (hd iso_no) < length doc" "fst (hd rev_no) < length doc"
    using f ne by (auto intro: find_text_position_hd)
  show ?thesis
    using kw ne idx
    by (simp add: extract_from_document_def getitem_def hd_conv_nth case_prod_beta)
qed

lemma layout_resolver_cases:
  assumes "layout_resolver path nps_page iso_page rev_page = res"
  shows "(\<exists>e. res = Inl e) \<or> res = Inr ([TableExtractFailed path], None)
         \<or> (\<exists>t i r. res = Inr ([], Some (t, i, r)) \<and> strip t \<noteq> [])"
  using assms unfolding layout_resolver_def bind_exn_def
  by (auto split: sum.splits if_splits)

text \<open>
  Claim C1. The table region of the first coordinate set is read first. If its text is
  not empty, the ISO and revision texts are those of the first set's regions. Only if
  it is empty the table region of the second set is read, and then the ISO and revision
  texts are those of the second set's regions. A result never combines regions of the
  two sets. If both table regions are empty the document fails: no table is returned.
\<close>

theorem layout_resolver_sets:
  "(extract_text_in_region nps_page table_rect_set1 = Inr t1 \<and> strip t1 \<noteq> [] \<and>
    extract_text_in_region iso_page iso_no_rect_set1 = Inr i1 \<and>
    extract_text_in_region rev_page rev_no_rect_set1 = Inr r1 \<longrightarrow>
      layout_resolver path nps_page iso_page rev_page = Inr ([], Some (t1, i1, r1))) \<and>
   (extract_text_in_region nps_page table_rect_set1 = Inr t1 \<and> strip t1 = [] \<and>
    extract_text_in_region nps_page table_rect_set2 = Inr t2 \<and> strip t2 \<noteq> [] \<and>
    extract_text_in_region iso_page iso_no_rect_set2 = Inr i2 \<and>
    extract_text_in_region rev_page rev_no_rect_set2 = Inr r2 \<longrightarrow>
      layout_resolver path nps_page iso_page rev_page = Inr ([], Some (t2, i2, r2))) \<and>
   (extract_text_in_region nps_page table_rect_set1 = Inr t1 \<and> strip t1 = [] \<and>
    extract_text_in_region nps_page table_rect_set2 = Inr t2 \<and> strip t2 = [] \<longrightarrow>
      layout_resolver path nps_page iso_page rev_page = Inr ([TableExtractFailed path], None)) \<and>
   (layout_resolver path nps_page iso_page rev_page = Inr (out, Some (t, i, r)) \<longrightarrow>
      (extract_text_in_region nps_page table_rect_set1 = Inr t \<and> strip t \<noteq> [] \<and>
       extract_text_in_region iso_page iso_no_rect_set1 = Inr i \<and>
       extract_text_in_region rev_page rev_no_rect_set1 = Inr r) \<or>
      ((\<exists>t'. extract_text_in_region nps_page table_rect_set1 = Inr t' \<and> strip t' = []) \<and>
       extract_text_in_region nps_page table_rect_set2 = Inr t \<and> strip t \<noteq> [] \<and>
       extract_text_in_region iso_page iso_no_rect_set2 = Inr i \<and>
       extract_text_in_region rev_page rev_no_rect_set2 = Inr r)) \<and>
   (open_pdf path = Inr doc \<and> find_keywords doc = Inr (nps, toxic, kosha, iso_no, rev_no) \<and>
    nps \<noteq> [] \<and> toxic \<noteq> [] \<and> kosha \<noteq> [] \<and> iso_no \<noteq> [] \<and> rev_no \<noteq> [] \<and>
    extract_text_in_region (doc ! fst (hd nps)) table_rect_set1 = Inr t1 \<and> strip t1 = [] \<and>
    extract_text_in_region (doc ! fst (hd nps)) table_rect_set2 = Inr t2 \<and> strip t2 = [] \<longrightarrow>
      extract_data_from_pdf open_pdf path = Inr ([TableExtractFailed path], None))"
proof (intro conjI impI)
  assume "layout_resolver path nps_page iso_page rev_page = Inr (out, Some (t, i, r))"
  then show "(extract_text_in_region nps_page table_rect_set1 = Inr t \<and> strip t \<noteq> [] \<and>
       extract_text_in_region iso_page iso_no_rect_set1 = Inr i \<and>
       extract_text_in_region rev_page rev_no_rect_set1 = Inr r) \<or>
      ((\<exists>t'. extract_text_in_region nps_page table_rect_set1 = Inr t' \<and> strip t' = []) \<and>
       extract_text_in_region nps_page table_rect_set2 = Inr t \<and> strip t \<noteq> [] \<and>
       extract_text_in_region iso_page iso_no_rect_set2 = Inr i \<and>
       extract_text_in_region rev_page rev_no_rect_set2 = Inr r)"
    unfolding layout_resolver_def bind_exn_def
    by (auto split: sum.splits if_splits)
next
  assume a: "open_pdf path = Inr doc \<and> find_keywords doc = Inr (nps, toxic, kosha, iso_no, rev_no) \<and>
    nps \<noteq> [] \<and> toxic \<noteq> [] \<and> kosha \<noteq> [] \<and> iso_no \<noteq> [] \<and> rev_no \<noteq> [] \<and>
    extract_text_in_region (doc ! fst (hd nps)) table_rect_set1 = Inr t1 \<and> strip t1 = [] \<and>
    extract_text_in_region (doc ! fst (hd nps)) table_rect_set2 = Inr t2 \<and> strip t2 = []"
  then have "layout_resolver path (doc ! fst (hd nps)) (doc ! fst (hd iso_no)) (doc ! fst (hd rev_no))
               = Inr ([TableExtractFailed path], None)"
    by (simp add: layout_resolver_def)
  with a have "extract_from_document path doc = Inr ([TableExtractFailed path], None)"
    by (simp add: extract_from_document_found)
  with a show "extract_data_from_pdf open_pdf path = Inr ([TableExtractFailed path], None)"
    by (simp add: extract_data_from_pdf_def try_except_def)
qed (simp_all add: layout_resolver_def)

lemma regions_distinct:
  "distinct [table_rect_set1, iso_no_rect_set1, rev_no_rect_set1,
             table_rect_set2, iso_no_rect_set2, rev_no_rect_set2]"
  by code_simp

lemma extract_text_in_region_text_page:
  "extract_text_in_region (text_page s g) r
     = bind_exn (g r) (\<lambda>text. Inr (if text \<noteq> [] then strip text else []))"
  by (simp add: extract_text_in_region_def text_page_def get_corrected_rect_def)

lemma region_text_simps:
  "region_text ta ia ra tb ib rb table_rect_set1 = Inr ta"
  "region_text ta ia ra tb ib rb iso_no_rect_set1 = Inr ia"
  "region_text ta ia ra tb ib rb rev_no_rect_set1 = Inr ra"
  "region_text ta ia ra tb ib rb table_rect_set2 = Inr tb"
  "region_text ta ia ra tb ib rb iso_no_rect_set2 = Inr ib"
  "region_text ta ia ra tb ib rb rev_no_rect_set2 = Inr rb"
  using regions_distinct by (auto simp: region_text_def)

lemma find_keywords_five:
  "find_keywords [text_page five_keywords g]
     = Inr ([(0, small_rect)], [(0, small_rect)], [(0, small_rect)], [(0, small_rect)], [(0, small_rect)])"
  by (simp add: find_keywords_def find_text_position_def text_page_def five_keywords_def
        get_corrected_rect_def)

theorem layout_resolver_sets_witness:
  "layout_resolver sample_path both_page both_page both_page
     = Inr ([], Some (str ''T1'', str ''ISO-1'', str ''A'')) \<and>
   layout_resolver sample_path fallback_page fallback_page fallback_page
     = Inr ([], Some (str ''T2'', str ''ISO-2'', str ''B'')) \<and>
   layout_resolver sample_path textless_page textless_page textless_page
     = Inr ([TableExtractFailed sample_path], None) \<and>
   extract_data_from_pdf (\<lambda>_. Inr [textless_page]) sample_path
     = Inr ([TableExtractFailed sample_path], None)"
proof -
  have s: "strip (str ''T1'') = str ''T1''" "strip (str '' ISO-1'') = str ''ISO-1''"
    "strip (str ''A'') = str ''A''" "strip (str ''  '') = []" "strip (str ''T2'') = str ''T2''"
    "strip (str ''ISO-2 '') = str ''ISO-2''" "strip (str ''B'') = str ''B''" "strip [] = []"
    by (simp_all add: strip_def isspace_def)
  have a: "extract_text_in_region both_page table_rect_set1 = Inr (str ''T1'') \<and>
      strip (str ''T1'') \<noteq> [] \<and>
      extract_text_in_region both_page iso_no_rect_set1 = Inr (str ''ISO-1'') \<and>
      extract_text_in_region both_page rev_no_rect_set1 = Inr (str ''A'')"
    using s by (simp add: both_page_def extract_text_in_region_text_page region_text_simps)
  have b: "extract_text_in_region fallback_page table_rect_set1 = Inr [] \<and> strip [] = [] \<and>
      extract_text_in_region fallback_page table_rect_set2 = Inr (str ''T2'') \<and>
      strip (str ''T2'') \<noteq> [] \<and>
      extract_text_in_region fallback_page iso_no_rect_set2 = Inr (str ''ISO-2'') \<and>
      extract_text_in_region fallback_page rev_no_rect_set2 = Inr (str ''B'')"
    using s by (simp add: fallback_page_def extract_text_in_region_text_page region_text_simps)
  have c: "extract_text_in_region textless_page table_rect_set1 = Inr [] \<and> strip [] = [] \<and>
      extract_text_in_region textless_page table_rect_set2 = Inr [] \<and> strip [] = []"
    using s by (simp add: textless_page_def extract_text_in_region_text_page)
  have d: "(\<lambda>_. Inr [textless_page]) sample_path = Inr [textless_page] \<and>
      find_keywords [textless_page]
        = Inr ([(0, small_rect)], [(0, small_rect)], [(0, small_rect)], [(0, small_rect)],
               [(0, small_rect)]) \<and>
      [(0, small_rect)] \<noteq> [] \<and> [(0, small_rect)] \<noteq> [] \<and> [(0, small_rect)] \<noteq> [] \<and>
      [(0, small_rect)] \<noteq> [] \<and> [(0, small_rect)] \<noteq> [] \<and>
      extract_text_in_region ([textless_page] ! fst (hd [(0, small_rect)])) table_rect_set1 = Inr [] \<and>
      strip [] = [] \<and>
      extract_text_in_region ([textless_page] ! fst (hd [(0, small_rect)])) table_rect_set2 = Inr [] \<and>
      strip [] = []"
    using c by (simp add: textless_page_def find_keywords_five)
  have w1: "layout_resolver sample_path both_page both_page both_page
     = Inr ([], Some (str ''T1'', str ''ISO-1'', str ''A''))"
    by (rule layout_resolver_sets [THEN conjunct1, THEN mp, OF a])
  have w2: "layout_resolver sample_path fallback_page fallback_page fallback_page
     = Inr ([], Some (str ''T2'', str ''ISO-2'', str ''B''))"
    by (rule layout_resolver_sets [THEN conjunct2, THEN conjunct1, THEN mp, OF b])
  have w3: "layout_resolver sample_path textless_page textless_page textless_page
     = Inr ([TableExtractFailed sample_path], None)"
    by (rule layout_resolver_sets [THEN conjunct2, THEN conjunct2, THEN conjunct1, THEN mp, OF c])
  have w4: "extract_data_from_pdf (\<lambda>_. Inr [textless_page]) sample_path
     = Inr ([TableExtractFailed sample_path], None)"
    by (rule layout_resolver_sets [THEN conjunct2, THEN conjunct2, THEN conjunct2, THEN conjunct2,
          THEN mp, OF d])
  from w1 w2 w3 w4 show ?thesis
    by (intro conjI)
qed

section \<open>The parser on example tables\<close>

lemma split_on_Nil: "split_on sep [] = [[]]"
  by (subst split_on.simps) simp

lemmas split_on_Cons = split_on.simps [of _ "c # cs" for c cs]

lemma sample_lines_facts:
  "list_all wf_line sample_lines" "tokens_of sample_lines = [row19, row19, row19]"
  "length row19 = 19"
  by (simp_all add: sample_lines_def line19_def row19_def is_gap_def is_token_def isspace_def
        newline_def)

lemma bad_lines_facts:
  "list_all wf_line bad_lines" "tokens_of bad_lines = [row19, row19, butlast row19, row19]"
  by (simp_all add: bad_lines_def line19_def line18_def row19_def is_gap_def is_token_def
        isspace_def newline_def)

theorem table_parser_rejects_iff_witness:
  "table_parser sample_path (render_table bad_lines) (str ''ISO-1'') (str ''A'')
     = ([TableShapeMismatch sample_path], None) \<and>
   table_parser sample_path (str ''  '') (str ''ISO-1'') (str ''A'')
     = ([TableEmpty sample_path], None) \<and>
   snd (table_parser sample_path (render_table sample_lines) (str ''ISO-1'') (str ''A'')) \<noteq> None"
proof -
  have bad: "table_rows (render_table bad_lines) = [row19, row19, butlast row19, row19]"
    using table_rows_render_table [of bad_lines] bad_lines_facts
    by (simp add: bad_lines_def)
  have good: "table_rows (render_table sample_lines) = [row19, row19, row19]"
    using table_rows_render_table [of sample_lines] sample_lines_facts
    by (simp add: sample_lines_def)
  have blank: "table_rows (str ''  '') = []"
    by (simp add: table_rows_def split_on_Nil split_on_Cons newline_def strip_def isspace_def)
  have m: "table_rows (render_table bad_lines) \<noteq> [] \<and>
           (\<exists>r \<in> set (table_rows (render_table bad_lines)). length r \<noteq> 19)"
    using sample_lines_facts(3) by (simp add: bad)
  have w1: "table_parser sample_path (render_table bad_lines) (str ''ISO-1'') (str ''A'')
     = ([TableShapeMismatch sample_path], None)"
    by (rule table_parser_rejects_iff [THEN conjunct2, THEN conjunct2, THEN conjunct1, THEN mp, OF m])
  have w2: "table_parser sample_path (str ''  '') (str ''ISO-1'') (str ''A'')
     = ([TableEmpty sample_path], None)"
    by (rule table_parser_rejects_iff [THEN conjunct2, THEN conjunct1, THEN mp, OF blank])
  have "\<not> (table_rows (render_table sample_lines) = [] \<or>
            (\<exists>r \<in> set (table_rows (render_table sample_lines)). length r \<noteq> 19))"
    using sample_lines_facts(3) by (simp add: good)
  then have w3: "snd (table_parser sample_path (render_table sample_lines) (str ''ISO-1'') (str ''A''))
                   \<noteq> None"
    using table_parser_rejects_iff [THEN conjunct1, of sample_path "render_table sample_lines"
            "str ''ISO-1''" "str ''A''"]
    by blast
  from w1 w2 w3 show ?thesis
    by (intro conjI)
qed

theorem table_parser_round_trip_witness:
  "list_all wf_line sample_lines \<and> tokens_of sample_lines = [row19, row19, row19] \<and>
   table_parser sample_path (render_table sample_lines) (str ''ISO-1'') (str ''A'')
     = ([], Some \<lparr>df_columns = columns @ [str ''ISO_NO'', str ''REV.NO''],
                  df_rows = [row19 @ [str ''ISO-1'', str ''A''], row19 @ [str ''ISO-1'', str ''A''],
                             row19 @ [str ''ISO-1'', str ''A'']]\<rparr>)"
proof -
  have ne: "tokens_of sample_lines \<noteq> []"
    and len: "list_all (\<lambda>r. length r = 19) (tokens_of sample_lines)"
    using sample_lines_facts by simp_all
  from table_parser_round_trip [OF sample_lines_facts(1) ne len, of sample_path "str ''ISO-1''" "str ''A''"]
  have "table_parser sample_path (render_table sample_lines) (str ''ISO-1'') (str ''A'')
     = ([], Some \<lparr>df_columns = columns @ [str ''ISO_NO'', str ''REV.NO''],
                  df_rows = map (\<lambda>r. r @ [str ''ISO-1'', str ''A'']) (tokens_of sample_lines)\<rparr>)"
    by (rule conjunct1)
  then show ?thesis
    using sample_lines_facts(1,2) by simp
qed

section \<open>Outcomes of \<^verbatim>\<open>extract_data_from_pdf\<close>\<close>

lemma split_on_covers:
  "c \<in> set s \<Longrightarrow> c \<noteq> sep \<Longrightarrow> \<exists>l \<in> set (split_on sep s). c \<in> set l"
proof (induction sep s rule: split_on.induct)
  case (1 sep s)
  show ?case
  proof (cases "dropWhile (\<lambda>c. c \<noteq> sep) s")
    case Nil
    then have "split_on sep s = [s]"
      by (subst split_on.simps) (simp only: list.case)
    with "1.prems" show ?thesis by simp
  next
    case (Cons d rest)
    then have eq: "split_on sep s = takeWhile (\<lambda>c. c \<noteq> sep) s # split_on sep rest"
      by (subst split_on.simps) (simp only: list.case)
    have s: "s = takeWhile (\<lambda>c. c \<noteq> sep) s @ d # rest"
      using Cons takeWhile_dropWhile_id [of "\<lambda>c. c \<noteq> sep" s] by simp
    have "d = sep"
      using Cons hd_dropWhile [of "\<lambda>c. c \<noteq> sep" s] by simp
    with "1.prems" s have "c \<in> set (takeWhile (\<lambda>c. c \<noteq> sep) s) \<or> c \<in> set rest"
      by (metis Un_iff set_ConsD set_append)
    then show ?thesis
    proof
      assume "c \<in> set (takeWhile (\<lambda>c. c \<noteq> sep) s)"
      with eq show ?thesis by simp
    next
      assume "c \<in> set rest"
      with "1.IH" [OF Cons] "1.prems"(2) eq show ?thesis by auto
    qed
  qed
qed

lemma table_rows_nonempty:
  assumes "strip t \<noteq> []"
  shows "table_rows t \<noteq> []"
proof -
  from assms obtain c where c: "c \<in> set t" "\<not> isspace c"
    by (auto simp: strip_empty_iff)
  then have "c \<noteq> newline"
    by (auto simp: isspace_def newline_def)
  with c(1) obtain l where l: "l \<in> set (split_on newline t)" "c \<in> set l"
    using split_on_covers by blast
  with c(2) have "strip l \<noteq> []"
    by (auto simp: strip_empty_iff)
  with l(1) have "l \<in> set (filter (\<lambda>line. strip line \<noteq> []) (split_on newline t))"
    by simp
  then have "filter (\<lambda>line. strip line \<noteq> []) (split_on newline t) \<noteq> []"
    by (metis empty_iff list.set(1))
  then show ?thesis
    by (simp add: table_rows_def)
qed

lemma table_parser_cases:
  "table_parser path t iso_no rev_no = ([TableEmpty path], None) \<and> table_rows t = []
   \<or> table_parser path t iso_no rev_no = ([TableShapeMismatch path], None) \<and> table_rows t \<noteq> []
   \<or> (\<exists>df. table_parser path t iso_no rev_no = ([], Some df) \<and> table_rows t \<noteq> [] \<and>
        (\<forall>r \<in> set (table_rows t). length r = 19) \<and>
        df = \<lparr>df_columns = columns @ [str ''ISO_NO'', str ''REV.NO''],
              df_rows = map (\<lambda>r. r @ [iso_no, rev_no]) (table_rows t)\<rparr>)"
proof (cases "table_rows t = []")
  case True
  then show ?thesis by (simp add: table_parser_def)
next
  case ne: False
  show ?thesis
  proof (cases "\<forall>r \<in> set (table_rows t). length r = 19")
    case True
    with ne show ?thesis by (simp add: table_parser_accepts)
  next
    case False
    with ne show ?thesis
      by (auto simp: table_parser_def Let_def list_ex_iff length_columns)
  qed
qed

lemma extract_from_document_outcome:
  "(\<exists>e. extract_from_document path doc = Inl e) \<or>
   (\<exists>out res. extract_from_document path doc = Inr (out, res) \<and> outcome path out res)"
proof (cases "find_keywords doc")
  case (Inl e)
  then show ?thesis
    by (simp add: extract_from_document_def outcome_def)
next
  case (Inr ks)
  obtain nps toxic kosha iso_no rev_no where ks: "ks = (nps, toxic, kosha, iso_no, rev_no)"
    by (cases ks) auto
  show ?thesis
  proof (cases "nps \<noteq> [] \<and> toxic \<noteq> [] \<and> kosha \<noteq> [] \<and> iso_no \<noteq> [] \<and> rev_no \<noteq> []")
    case False
    with Inr ks show ?thesis
      by (auto simp: extract_from_document_def outcome_def)
  next
    case True
    let ?L = "layout_resolver path (doc ! fst (hd nps)) (doc ! fst (hd iso_no)) (doc ! fst (hd rev_no))"
    from True Inr ks have eq: "extract_from_document path doc =
        bind_exn ?L (\<lambda>(out, texts). case texts of None \<Rightarrow> Inr (out, None)
           | Some (table_text, iso_no_text, rev_no_text) \<Rightarrow>
               Inr (table_parser path table_text iso_no_text rev_no_text))"
      by (intro extract_from_document_found) auto
    from layout_resolver_cases [OF refl, of path "doc ! fst (hd nps)" "doc ! fst (hd iso_no)"
        "doc ! fst (hd rev_no)"]
    consider e where "?L = Inl e" | "?L = Inr ([TableExtractFailed path], None)"
      | t i r where "?L = Inr ([], Some (t, i, r))" "strip t \<noteq> []"
      by blast
    then show ?thesis
    proof cases
      case 1
      with eq show ?thesis by simp
    next
      case 2
      with eq show ?thesis by (simp add: outcome_def)
    next
      case 3
      from 3(2) have "table_rows t \<noteq> []"
        by (rule table_rows_nonempty)
      with table_parser_cases [of path t i r]
      have "outcome path (fst (table_parser path t i r)) (snd (table_parser path t i r))"
        by (auto simp: outcome_def)
      with eq 3(1) show ?thesis
        by (cases "table_parser path t i r") simp
    qed
  qed
qed

lemma extract_data_from_pdf_outcome:
  "\<exists>out res. extract_data_from_pdf open_pdf path = Inr (out, res) \<and> outcome path out res"
proof (cases "open_pdf path")
  case (Inl e)
  then show ?thesis
    by (simp add: extract_data_from_pdf_def try_except_def outcome_def)
next
  case (Inr doc)
  from extract_from_document_outcome [of path doc] show ?thesis
  proof
    assume "\<exists>e. extract_from_document path doc = Inl e"
    with Inr show ?thesis
      by (auto simp: extract_data_from_pdf_def try_except_def outcome_def)
  next
    assume "\<exists>out res. extract_from_document path doc = Inr (out, res) \<and> outcome path out res"
    with Inr show ?thesis
      by (auto simp: extract_data_from_pdf_def try_except_def)
  qed
qed

lemma extract_data_from_pdf_success:
  assumes "extract_data_from_pdf open_pdf path = Inr (out, Some df)"
  shows "\<exists>doc nps_page iso_page rev_page table_text iso_no rev_no.
           open_pdf path = Inr doc \<and> nps_page \<in> set doc \<and> iso_page \<in> set doc \<and> rev_page \<in> set doc \<and>
           layout_resolver path nps_page iso_page rev_page = Inr ([], Some (table_text, iso_no, rev_no)) \<and>
           table_rows table_text \<noteq> [] \<and> (\<forall>r \<in> set (table_rows table_text). length r = 19) \<and>
           out = [] \<and>
           df = \<lparr>df_columns = columns @ [str ''ISO_NO'', str ''REV.NO''],
                 df_rows = map (\<lambda>r. r @ [iso_no, rev_no]) (table_rows table_text)\<rparr>"
proof -
  from assms obtain doc where doc: "open_pdf path = Inr doc"
    by (cases "open_pdf path") (auto simp: extract_data_from_pdf_def try_except_def)
  with assms have ex: "extract_from_document path doc = Inr (out, Some df)"
    by (cases "extract_from_document path doc")
       (auto simp: extract_data_from_pdf_def try_except_def)
  then obtain ks where "find_keywords doc = Inr ks"
    by (cases "find_keywords doc") (auto simp: extract_from_document_def)
  then obtain nps toxic kosha iso_ps rev_ps where
    ks: "find_keywords doc = Inr (nps, toxic, kosha, iso_ps, rev_ps)"
    by (cases ks) auto
  with ex have ne: "nps \<noteq> []" "toxic \<noteq> []" "kosha \<noteq> []" "iso_ps \<noteq> []" "rev_ps \<noteq> []"
    by (auto simp: extract_from_document_def split: if_splits)
  let ?n = "doc ! fst (hd nps)" and ?i = "doc ! fst (hd iso_ps)" and ?r = "doc ! fst (hd rev_ps)"
  from ks have f: "find_text_position doc (str ''NPS'') = Inr nps"
    "find_text_position doc (str ''ISO DWG. NO.'') = Inr iso_ps"
    "find_text_position doc (str ''REV. NO'') = Inr rev_ps"
    by (simp_all add: find_keywords_Inr_iff)
  have mem: "?n \<in> set doc" "?i \<in> set doc" "?r \<in> set doc"
    using f ne by (auto intro!: nth_mem find_text_position_hd)
  from extract_from_document_found [OF ks ne, of path] ex
  have eq: "bind_exn (layout_resolver path ?n ?i ?r)
       (\<lambda>(out, texts). case texts of None \<Rightarrow> Inr (out, None)
         | Some (table_text, iso_no_text, rev_no_text) \<Rightarrow>
             Inr (table_parser path table_text iso_no_text rev_no_text)) = Inr (out, Some df)"
    by simp
  from layout_resolver_cases [OF refl, of path ?n ?i ?r]
  consider e where "layout_resolver path ?n ?i ?r = Inl e"
    | "layout_resolver path ?n ?i ?r = Inr ([TableExtractFailed path], None)"
    | t i r where "layout_resolver path ?n ?i ?r = Inr ([], Some (t, i, r))"
    by blast
  then show ?thesis
  proof cases
    case 1
    with eq show ?thesis by simp
  next
    case 2
    with eq show ?thesis by simp
  next
    case 3
    with eq have tp: "table_parser path t i r = (out, Some df)"
      by simp
    with table_parser_cases [of path t i r]
    have "table_rows t \<noteq> [] \<and> (\<forall>r \<in> set (table_rows t). length r = 19) \<and> out = [] \<and>
        df = \<lparr>df_columns = columns @ [str ''ISO_NO'', str ''REV.NO''],
              df_rows = map (\<lambda>row. row @ [i, r]) (table_rows t)\<rparr>"
      by auto
    with doc mem 3 show ?thesis
      by blast
  qed
qed

lemma extract_data_from_pdf_not_empty:
  assumes "extract_data_from_pdf open_pdf path = Inr (out, Some df)"
  shows "\<not> df_empty df"
  using extract_data_from_pdf_success [OF assms]
  by (auto simp: df_empty_def)

lemma process_files_eq:
  "process_files env folder files
     = Inr (concat (map (\<lambda>f. Processing (path_join env folder f) # document_printed env folder f) files),
            List.map_filter (document_table env folder) files)"
proof (induction files)
  case Nil
  then show ?case by (simp add: map_filter_simps)
next
  case (Cons f files)
  obtain out res where
    ex: "extract_data_from_pdf (fitz_open env) (path_join env folder f) = Inr (out, res)"
    using extract_data_from_pdf_outcome by blast
  then have p: "document_printed env folder f = out" and t: "document_table env folder f = res"
    by (simp_all add: document_printed_def document_table_def)
  show ?case
  proof (cases res)
    case None
    with ex p t Cons.IH show ?thesis
      by (simp add: map_filter_simps Let_def)
  next
    case (Some d)
    with ex have "\<not> df_empty d"
      using extract_data_from_pdf_not_empty by blast
    with Some ex p t Cons.IH show ?thesis
      by (simp add: map_filter_simps Let_def)
  qed
qed

lemma document_failure_printed:
  assumes "document_table env folder f = None"
  shows "document_printed env folder f \<noteq> []"
proof -
  obtain out res where
    ex: "extract_data_from_pdf (fitz_open env) (path_join env folder f) = Inr (out, res)"
    and o: "outcome (path_join env folder f) out res"
    using extract_data_from_pdf_outcome by blast
  with assms have "res = None"
    by (simp add: document_table_def)
  with o have "out \<noteq> []"
    by (auto simp: outcome_def)
  with ex show ?thesis
    by (simp add: document_printed_def)
qed

lemma document_table_frame:
  assumes "document_table env folder f = Some d"
  shows "df_columns d = columns @ [str ''ISO_NO'', str ''REV.NO''] \<and>
         (\<exists>iso_no rev_no. \<forall>row \<in> set (df_rows d).
             \<exists>fields. row = fields @ [iso_no, rev_no] \<and> length fields = 19)"
proof -
  from assms obtain out where
    "extract_data_from_pdf (fitz_open env) (path_join env folder f) = Inr (out, Some d)"
    by (auto simp: document_table_def split: sum.splits)
  from extract_data_from_pdf_success [OF this] show ?thesis
    by auto
qed

lemma pd_concat_frames:
  assumes "tables \<noteq> []"
    and "\<forall>d \<in> set tables. df_columns d = cols"
  shows "pd_concat tables = Inr \<lparr>df_columns = cols, df_rows = concat (map df_rows tables)\<rparr>"
  using assms by (cases tables) auto

lemma map_filter_member:
  "d \<in> set (List.map_filter g xs) \<Longrightarrow> \<exists>x \<in> set xs. g x = Some d"
  by (auto simp: map_filter_def)

section \<open>Properties of the extraction and of the batch\<close>

text \<open>
  Claim C10. \<^verbatim>\<open>extract_data_from_pdf\<close> never raises: it always returns. Every failure
  (an exception while opening or processing, an exception in the keyword search, a
  keyword without anchors, no table text, a table of the wrong shape) returns the same
  value \<open>None\<close>; only the printed line differs. The return for an empty table is
  \<open>None\<close> as well.
\<close>

theorem extract_data_from_pdf_failures:
  "(\<exists>out res. extract_data_from_pdf open_pdf path = Inr (out, res) \<and>
      (res = None \<and> ((\<exists>e. out = [PdfProcessingFailed e]) \<or> (\<exists>e. out = [KeywordSearchFailed e])
                     \<or> out = [KeywordsNotFound path] \<or> out = [TableExtractFailed path]
                     \<or> out = [TableShapeMismatch path])
       \<or> (\<exists>df. res = Some df \<and> out = []))) \<and>
   (fst (table_parser path table_text iso_no rev_no) \<noteq> [] \<longrightarrow>
      snd (table_parser path table_text iso_no rev_no) = None)"
proof
  show "\<exists>out res. extract_data_from_pdf open_pdf path = Inr (out, res) \<and>
      (res = None \<and> ((\<exists>e. out = [PdfProcessingFailed e]) \<or> (\<exists>e. out = [KeywordSearchFailed e])
                     \<or> out = [KeywordsNotFound path] \<or> out = [TableExtractFailed path]
                     \<or> out = [TableShapeMismatch path])
       \<or> (\<exists>df. res = Some df \<and> out = []))"
    using extract_data_from_pdf_outcome [of open_pdf path] unfolding outcome_def .
next
  show "fst (table_parser path table_text iso_no rev_no) \<noteq> [] \<longrightarrow>
      snd (table_parser path table_text iso_no rev_no) = None"
    using table_parser_cases [of path table_text iso_no rev_no] by auto
qed

lemma missing_anchor_document:
  assumes "find_text_position doc (str ''NPS'') = Inr nps"
    and "find_text_position doc (str ''TOXIC'') = Inr toxic"
    and "find_text_position doc (str ''KOSHA'') = Inr kosha"
    and "find_text_position doc (str ''ISO DWG. NO.'') = Inr iso_no"
    and "find_text_position doc (str ''REV. NO'') = Inr rev_no"
    and "nps = [] \<or> toxic = [] \<or> kosha = [] \<or> iso_no = [] \<or> rev_no = []"
  shows "extract_from_document path doc = Inr ([KeywordsNotFound path], None)"
proof -
  from assms(1-5) have "find_keywords doc = Inr (nps, toxic, kosha, iso_no, rev_no)"
    by (simp add: find_keywords_Inr_iff)
  with assms(6) show ?thesis
    by (auto simp: extract_from_document_def)
qed

text \<open>
  Claim C5, amended. The anchor phase searches five keywords: the three markers
  \<^verbatim>\<open>NPS\<close>, \<^verbatim>\<open>TOXIC\<close>, \<^verbatim>\<open>KOSHA\<close> and the two labels \<^verbatim>\<open>ISO DWG. NO.\<close> and \<^verbatim>\<open>REV. NO\<close>.
  For every document on which the five searches return and one of them finds nothing,
  the extraction fails with the missing-keyword report and returns \<open>None\<close>, whatever
  the table regions hold, and the document adds no table to the batch.
\<close>

theorem missing_anchor_fails:
  "(open_pdf path = Inr doc \<and>
    find_text_position doc (str ''NPS'') = Inr nps \<and>
    find_text_position doc (str ''TOXIC'') = Inr toxic \<and>
    find_text_position doc (str ''KOSHA'') = Inr kosha \<and>
    find_text_position doc (str ''ISO DWG. NO.'') = Inr iso_no \<and>
    find_text_position doc (str ''REV. NO'') = Inr rev_no \<and>
    (nps = [] \<or> toxic = [] \<or> kosha = [] \<or> iso_no = [] \<or> rev_no = []) \<longrightarrow>
      extract_data_from_pdf open_pdf path = Inr ([KeywordsNotFound path], None)) \<and>
   (fitz_open env (path_join env folder f) = Inr doc \<and>
    find_text_position doc (str ''NPS'') = Inr nps \<and>
    find_text_position doc (str ''TOXIC'') = Inr toxic \<and>
    find_text_position doc (str ''KOSHA'') = Inr kosha \<and>
    find_text_position doc (str ''ISO DWG. NO.'') = Inr iso_no \<and>
    find_text_position doc (str ''REV. NO'') = Inr rev_no \<and>
    (nps = [] \<or> toxic = [] \<or> kosha = [] \<or> iso_no = [] \<or> rev_no = []) \<longrightarrow>
      (\<exists>printed tables. process_files env folder fs = Inr (printed, tables) \<and>
         process_files env folder (f # fs)
           = Inr (Processing (path_join env folder f) # KeywordsNotFound (path_join env folder f)
                    # printed, tables)))"
proof (intro conjI impI)
  assume a: "open_pdf path = Inr doc \<and>
    find_text_position doc (str ''NPS'') = Inr nps \<and>
    find_text_position doc (str ''TOXIC'') = Inr toxic \<and>
    find_text_position doc (str ''KOSHA'') = Inr kosha \<and>
    find_text_position doc (str ''ISO DWG. NO.'') = Inr iso_no \<and>
    find_text_position doc (str ''REV. NO'') = Inr rev_no \<and>
    (nps = [] \<or> toxic = [] \<or> kosha = [] \<or> iso_no = [] \<or> rev_no = [])"
  then have "extract_from_document path doc = Inr ([KeywordsNotFound path], None)"
    by (intro missing_anchor_document) blast+
  with a show "extract_data_from_pdf open_pdf path = Inr ([KeywordsNotFound path], None)"
    by (simp add: extract_data_from_pdf_def try_except_def)
next
  let ?p = "path_join env folder f"
  assume a: "fitz_open env ?p = Inr doc \<and>
    find_text_position doc (str ''NPS'') = Inr nps \<and>
    find_text_position doc (str ''TOXIC'') = Inr toxic \<and>
    find_text_position doc (str ''KOSHA'') = Inr kosha \<and>
    find_text_position doc (str ''ISO DWG. NO.'') = Inr iso_no \<and>
    find_text_position doc (str ''REV. NO'') = Inr rev_no \<and>
    (nps = [] \<or> toxic = [] \<or> kosha = [] \<or> iso_no = [] \<or> rev_no = [])"
  then have "extract_from_document ?p doc = Inr ([KeywordsNotFound ?p], None)"
    by (intro missing_anchor_document) blast+
  with a have "extract_data_from_pdf (fitz_open env) ?p = Inr ([KeywordsNotFound ?p], None)"
    by (simp add: extract_data_from_pdf_def try_except_def)
  then show "\<exists>printed tables. process_files env folder fs = Inr (printed, tables) \<and>
         process_files env folder (f # fs)
           = Inr (Processing ?p # KeywordsNotFound ?p # printed, tables)"
    by (simp add: process_files_eq [of env folder fs] Let_def)
qed

text \<open>
  Claim C7. On success the table has the 19 schema columns followed by \<^verbatim>\<open>ISO_NO\<close> and
  \<^verbatim>\<open>REV.NO\<close>, and each of its rows is a row of 19 parsed fields followed by the ISO text
  and the revision text that the layout choice extracted for the document, the same two
  on every row. The combined table that is written has these 21 columns, and each of
  its rows is 19 fields followed by an ISO and a revision value.
\<close>

theorem extracted_rows_carry_iso_and_rev:
  "(extract_data_from_pdf open_pdf path = Inr (out, Some df) \<longrightarrow>
      (\<exists>doc nps_page iso_page rev_page table_text iso_no rev_no.
         open_pdf path = Inr doc \<and> nps_page \<in> set doc \<and> iso_page \<in> set doc \<and> rev_page \<in> set doc \<and>
         layout_resolver path nps_page iso_page rev_page
           = Inr ([], Some (table_text, iso_no, rev_no)) \<and>
         table_rows table_text \<noteq> [] \<and> (\<forall>r \<in> set (table_rows table_text). length r = 19) \<and>
         df_columns df = columns @ [str ''ISO_NO'', str ''REV.NO''] \<and>
         df_rows df = map (\<lambda>r. r @ [iso_no, rev_no]) (table_rows table_text))) \<and>
   (process_pdfs_in_folder env user_input = Inr (printed, Some (csv, final)) \<longrightarrow>
      df_columns final = columns @ [str ''ISO_NO'', str ''REV.NO''] \<and>
      length (df_columns final) = 21 \<and>
      (\<forall>row \<in> set (df_rows final).
         \<exists>fields iso_no rev_no. row = fields @ [iso_no, rev_no] \<and> length fields = 19))"
proof (rule conjI; rule impI)
  assume "extract_data_from_pdf open_pdf path = Inr (out, Some df)"
  from extract_data_from_pdf_success [OF this]
  show "\<exists>doc nps_page iso_page rev_page table_text iso_no rev_no.
         open_pdf path = Inr doc \<and> nps_page \<in> set doc \<and> iso_page \<in> set doc \<and> rev_page \<in> set doc \<and>
         layout_resolver path nps_page iso_page rev_page
           = Inr ([], Some (table_text, iso_no, rev_no)) \<and>
         table_rows table_text \<noteq> [] \<and> (\<forall>r \<in> set (table_rows table_text). length r = 19) \<and>
         df_columns df = columns @ [str ''ISO_NO'', str ''REV.NO''] \<and>
         df_rows df = map (\<lambda>r. r @ [iso_no, rev_no]) (table_rows table_text)"
    by fastforce
next
  assume run: "process_pdfs_in_folder env user_input = Inr (printed, Some (csv, final))"
  let ?folder = "strip user_input"
  from run obtain names where names: "listdir env ?folder = Inr names"
    by (cases "listdir env ?folder")
       (auto simp: process_pdfs_in_folder_def Let_def split: if_splits)
  let ?tables = "List.map_filter (document_table env ?folder) (select_pdf_files names)"
  from run names have ne: "?tables \<noteq> []" and c: "pd_concat ?tables = Inr final"
    by (auto simp: process_pdfs_in_folder_def Let_def process_files_eq bind_exn_def
             split: if_splits sum.splits)
  have cols: "\<forall>d \<in> set ?tables. df_columns d = columns @ [str ''ISO_NO'', str ''REV.NO'']"
    by (auto dest!: map_filter_member dest: document_table_frame)
  from pd_concat_frames [OF ne cols] c
  have final: "final = \<lparr>df_columns = columns @ [str ''ISO_NO'', str ''REV.NO''],
                        df_rows = concat (map df_rows ?tables)\<rparr>"
    by simp
  have rows: "\<exists>fields iso_no rev_no. row = fields @ [iso_no, rev_no] \<and> length fields = 19"
    if "row \<in> set (df_rows final)" for row
  proof -
    from that final obtain d where d: "d \<in> set ?tables" "row \<in> set (df_rows d)"
      by auto
    from d(1) obtain f where "document_table env ?folder f = Some d"
      by (auto dest!: map_filter_member)
    from document_table_frame [OF this] d(2) show ?thesis
      by blast
  qed
  from final rows
  show "df_columns final = columns @ [str ''ISO_NO'', str ''REV.NO''] \<and>
      length (df_columns final) = 21 \<and>
      (\<forall>row \<in> set (df_rows final).
         \<exists>fields iso_no rev_no. row = fields @ [iso_no, rev_no] \<and> length fields = 19)"
    by (simp add: length_columns)
qed

text \<open>
  Claim C8. The loop over the files never raises: every document is processed, each
  failed document leaves its printed report, and the tables collected are those of the
  successful documents in processing order. With no successful document the batch
  prints that nothing was extracted and writes no file; otherwise it writes the
  concatenation of the successful tables, rows in document order, and prints that the
  file was saved.
\<close>

theorem process_pdfs_in_folder_batch:
  fixes env :: os_env and user_input :: pystr and names :: "pystr list"
  defines "folder \<equiv> strip user_input"
  defines "files \<equiv> select_pdf_files names"
  defines "printed \<equiv> concat (map (\<lambda>f. Processing (path_join env folder f)
                                         # document_printed env folder f) files)"
  defines "tables \<equiv> List.map_filter (document_table env folder) files"
  defines "csv \<equiv> path_join env folder (str ''extracted_data.csv'')"
  defines "final \<equiv> \<lparr>df_columns = columns @ [str ''ISO_NO'', str ''REV.NO''],
                     df_rows = concat (map df_rows tables)\<rparr>"
  assumes "path_exists env folder" and "listdir env folder = Inr names"
  shows "process_files env folder files = Inr (printed, tables) \<and>
         (\<forall>f \<in> set files. document_table env folder f = None \<longrightarrow> document_printed env folder f \<noteq> []) \<and>
         (files = [] \<longrightarrow> process_pdfs_in_folder env user_input = Inr ([NoPdfInFolder], None)) \<and>
         (files \<noteq> [] \<and> tables = [] \<longrightarrow>
            process_pdfs_in_folder env user_input = Inr (printed @ [NothingExtracted], None)) \<and>
         (files \<noteq> [] \<and> tables \<noteq> [] \<longrightarrow>
            process_pdfs_in_folder env user_input
              = bind_exn (to_csv env csv final)
                  (\<lambda>_. Inr (printed @ [CsvSaved csv], Some (csv, final))))"
proof (intro conjI impI ballI)
  show "process_files env folder files = Inr (printed, tables)"
    unfolding printed_def tables_def by (rule process_files_eq)
next
  fix f
  assume "document_table env folder f = None"
  then show "document_printed env folder f \<noteq> []"
    by (rule document_failure_printed)
next
  assume "files = []"
  with assms(7,8) show "process_pdfs_in_folder env user_input = Inr ([NoPdfInFolder], None)"
    by (simp add: process_pdfs_in_folder_def folder_def files_def)
next
  assume "files \<noteq> [] \<and> tables = []"
  with assms(7,8)
  show "process_pdfs_in_folder env user_input = Inr (printed @ [NothingExtracted], None)"
    by (simp add: process_pdfs_in_folder_def process_files_eq folder_def files_def
          printed_def tables_def Let_def)
next
  assume a: "files \<noteq> [] \<and> tables \<noteq> []"
  have "\<forall>d \<in> set tables. df_columns d = columns @ [str ''ISO_NO'', str ''REV.NO'']"
    unfolding tables_def by (auto dest!: map_filter_member dest: document_table_frame)
  with a have "pd_concat tables = Inr final"
    unfolding final_def by (intro pd_concat_frames) simp_all
  with a assms(7,8)
  show "process_pdfs_in_folder env user_input
              = bind_exn (to_csv env csv final)
                  (\<lambda>_. Inr (printed @ [CsvSaved csv], Some (csv, final)))"
    by (simp add: process_pdfs_in_folder_def process_files_eq folder_def files_def
          printed_def tables_def csv_def Let_def)
qed

section \<open>The example documents\<close>

lemma one_line_facts:
  "list_all wf_line one_line" "tokens_of one_line = [row19]"
  by (simp_all add: one_line_def line19_def row19_def is_gap_def is_token_def isspace_def
        newline_def)

lemma strip_samples:
  "strip (render_table sample_lines) = render_table sample_lines"
  "strip (render_table bad_lines) = render_table bad_lines"
  "strip (render_table one_line) = render_table one_line"
  "render_table sample_lines \<noteq> []" "render_table bad_lines \<noteq> []" "render_table one_line \<noteq> []"
  by (simp_all add: sample_lines_def bad_lines_def one_line_def line19_def line18_def row19_def
        strip_def isspace_def newline_def)

lemma strip_literals:
  "strip (str ''ISO-1'') = str ''ISO-1''" "strip (str ''A'') = str ''A''"
  "strip (str ''ISO-2'') = str ''ISO-2''" "strip (str ''B'') = str ''B''"
  "strip (str ''  '') = []" "strip [] = []"
  by (simp_all add: strip_def isspace_def)

lemma table_rows_samples:
  "table_rows (render_table sample_lines) = [row19, row19, row19]"
  "table_rows (render_table bad_lines) = [row19, row19, butlast row19, row19]"
  "table_rows (render_table one_line) = [row19]"
  using table_rows_render_table [of sample_lines] sample_lines_facts
        table_rows_render_table [of bad_lines] bad_lines_facts
        table_rows_render_table [of one_line] one_line_facts
  by (simp_all add: sample_lines_def bad_lines_def one_line_def)

lemma extract_from_document_five:
  "extract_from_document path [text_page five_keywords g] =
     bind_exn (layout_resolver path (text_page five_keywords g) (text_page five_keywords g)
                 (text_page five_keywords g))
       (\<lambda>(out, texts). case texts of
           None \<Rightarrow> Inr (out, None)
         | Some (table_text, iso_no_text, rev_no_text) \<Rightarrow>
             Inr (table_parser path table_text iso_no_text rev_no_text))"
  using extract_from_document_found [OF find_keywords_five, where path = path and g1 = g]
  by simp

lemma layout_a:
  "layout_resolver path good_page_a good_page_a good_page_a
     = Inr ([], Some (render_table sample_lines, str ''ISO-1'', str ''A''))"
  using strip_samples strip_literals
  by (simp add: layout_resolver_def good_page_a_def extract_text_in_region_text_page
        region_text_simps)

lemma layout_b:
  "layout_resolver path good_page_b good_page_b good_page_b
     = Inr ([], Some (render_table one_line, str ''ISO-2'', str ''B''))"
  using strip_samples strip_literals
  by (simp add: layout_resolver_def good_page_b_def extract_text_in_region_text_page
        region_text_simps)

lemma layout_bad:
  "layout_resolver path bad_page bad_page bad_page
     = Inr ([], Some (render_table bad_lines, str ''ISO-1'', str ''A''))"
  using strip_samples strip_literals
  by (simp add: layout_resolver_def bad_page_def extract_text_in_region_text_page
        region_text_simps)

lemma parse_a:
  "table_parser path (render_table sample_lines) (str ''ISO-1'') (str ''A'') = ([], Some frame_a)"
  using table_parser_accepts [of "render_table sample_lines" path "str ''ISO-1''" "str ''A''"]
        sample_lines_facts(3)
  by (simp add: table_rows_samples frame_a_def)

lemma parse_b:
  "table_parser path (render_table one_line) (str ''ISO-2'') (str ''B'') = ([], Some frame_b)"
  using table_parser_accepts [of "render_table one_line" path "str ''ISO-2''" "str ''B''"]
        sample_lines_facts(3)
  by (simp add: table_rows_samples frame_b_def)

lemma parse_bad:
  "table_parser path (render_table bad_lines) (str ''ISO-1'') (str ''A'')
     = ([TableShapeMismatch path], None)"
  using table_parser_cases [of path "render_table bad_lines" "str ''ISO-1''" "str ''A''"]
        sample_lines_facts(3)
  by (auto simp: table_rows_samples)

lemma sample_results:
  "extract_data_from_pdf sample_open (str ''in/a.pdf'') = Inr ([], Some frame_a)"
  "extract_data_from_pdf sample_open (str ''in/b.pdf'') = Inr ([], Some frame_b)"
  "extract_data_from_pdf sample_open (str ''in/C.PDF'')
     = Inr ([PdfProcessingFailed (OSError (str ''cannot open''))], None)"
  "extract_data_from_pdf sample_open (str ''in/d.pdf'')
     = Inr ([KeywordsNotFound (str ''in/d.pdf'')], None)"
  "extract_data_from_pdf sample_open (str ''in/e.pdf'')
     = Inr ([TableShapeMismatch (str ''in/e.pdf'')], None)"
  "extract_data_from_pdf sample_open (str ''in/f.pdf'')
     = Inr ([TableExtractFailed (str ''in/f.pdf'')], None)"
  "extract_data_from_pdf sample_open (str ''in/g.pdf'')
     = Inr ([KeywordSearchFailed (RuntimeError (str ''search''))], None)"
  "extract_data_from_pdf sample_open (str ''in/h.pdf'')
     = Inr ([PdfProcessingFailed (RuntimeError (str ''clip''))], None)"
proof -
  show "extract_data_from_pdf sample_open (str ''in/a.pdf'') = Inr ([], Some frame_a)"
    using extract_from_document_five [of "str ''in/a.pdf''"] layout_a [of "str ''in/a.pdf''"]
      parse_a [of "str ''in/a.pdf''"]
    by (simp add: extract_data_from_pdf_def try_except_def sample_open_def good_page_a_def)
  show "extract_data_from_pdf sample_open (str ''in/b.pdf'') = Inr ([], Some frame_b)"
    using extract_from_document_five [of "str ''in/b.pdf''"] layout_b [of "str ''in/b.pdf''"]
      parse_b [of "str ''in/b.pdf''"]
    by (simp add: extract_data_from_pdf_def try_except_def sample_open_def good_page_b_def)
  show "extract_data_from_pdf sample_open (str ''in/C.PDF'')
     = Inr ([PdfProcessingFailed (OSError (str ''cannot open''))], None)"
    by (simp add: extract_data_from_pdf_def try_except_def sample_open_def)
  show "extract_data_from_pdf sample_open (str ''in/d.pdf'')
     = Inr ([KeywordsNotFound (str ''in/d.pdf'')], None)"
    by (simp add: extract_data_from_pdf_def try_except_def sample_open_def missing_rev_page_def
          extract_from_document_def find_keywords_def find_text_position_def text_page_def
          five_keywords_def get_corrected_rect_def)
  show "extract_data_from_pdf sample_open (str ''in/e.pdf'')
     = Inr ([TableShapeMismatch (str ''in/e.pdf'')], None)"
    using extract_from_document_five [of "str ''in/e.pdf''"] layout_bad [of "str ''in/e.pdf''"]
      parse_bad [of "str ''in/e.pdf''"]
    by (simp add: extract_data_from_pdf_def try_except_def sample_open_def bad_page_def)
  show "extract_data_from_pdf sample_open (str ''in/f.pdf'')
     = Inr ([TableExtractFailed (str ''in/f.pdf'')], None)"
    using extract_from_document_five [of "str ''in/f.pdf''" "\<lambda>clip. Inr []"] strip_literals
    by (simp add: extract_data_from_pdf_def try_except_def sample_open_def textless_page_def
          layout_resolver_def extract_text_in_region_text_page)
  show "extract_data_from_pdf sample_open (str ''in/g.pdf'')
     = Inr ([KeywordSearchFailed (RuntimeError (str ''search''))], None)"
    by (simp add: extract_data_from_pdf_def try_except_def sample_open_def search_raises_page_def
          extract_from_document_def find_keywords_def find_text_position_def text_page_def)
  show "extract_data_from_pdf sample_open (str ''in/h.pdf'')
     = Inr ([PdfProcessingFailed (RuntimeError (str ''clip''))], None)"
    using extract_from_document_five [of "str ''in/h.pdf''" "\<lambda>clip. Inl (RuntimeError (str ''clip''))"]
    by (simp add: extract_data_from_pdf_def try_except_def sample_open_def clip_raises_page_def
          layout_resolver_def extract_text_in_region_text_page)
qed

section \<open>The example batch\<close>

lemma select_listing:
  "select_pdf_files listing = map (\<lambda>s. str s) [''b.pdf'', ''C.PDF'', ''a.pdf'']"
  by (simp add: select_pdf_files_def listing_def lower_def endswith_def)

lemma sample_env_simps:
  "path_exists (sample_env names) p = (p = str ''in'')"
  "listdir (sample_env names) p = Inr names"
  "path_join (sample_env names) d f = d @ str ''/'' @ f"
  "fitz_open (sample_env names) = sample_open"
  "to_csv (sample_env names) p frame = Inr ()"
  by (simp_all add: sample_env_def)

lemma strip_in: "strip (str '' in '') = str ''in''"
  by (simp add: strip_def isspace_def)

lemma frames_not_empty: "\<not> df_empty frame_a" "\<not> df_empty frame_b"
  by (simp_all add: df_empty_def frame_a_def frame_b_def)

lemma listing_run:
  "process_pdfs_in_folder (sample_env listing) (str '' in '')
     = Inr ([Processing (str ''in/b.pdf''),
             Processing (str ''in/C.PDF''), PdfProcessingFailed (OSError (str ''cannot open'')),
             Processing (str ''in/a.pdf''),
             CsvSaved (str ''in/extracted_data.csv'')],
            Some (str ''in/extracted_data.csv'', final_ba))"
proof -
  have files: "process_files (sample_env listing) (str ''in'')
                 (map (\<lambda>s. str s) [''b.pdf'', ''C.PDF'', ''a.pdf''])
     = Inr ([Processing (str ''in/b.pdf''),
             Processing (str ''in/C.PDF''), PdfProcessingFailed (OSError (str ''cannot open'')),
             Processing (str ''in/a.pdf'')], [frame_b, frame_a])"
    using sample_results(1-3) frames_not_empty
    by (simp add: sample_env_simps Let_def)
  show ?thesis
    using files select_listing strip_in
    by (simp add: process_pdfs_in_folder_def sample_env_simps Let_def final_ba_def frame_b_def)
qed

text \<open>
  Claim C9 at a listing that is not sorted. The files are selected by their extension,
  whatever its case, and processed in the order of the listing: \<^verbatim>\<open>b.pdf\<close>, \<^verbatim>\<open>C.PDF\<close>,
  \<^verbatim>\<open>a.pdf\<close>, which is not the sorted order, and the rows of \<^verbatim>\<open>b.pdf\<close> are written before
  those of \<^verbatim>\<open>a.pdf\<close>.
\<close>

theorem process_pdfs_in_folder_listing_order:
  "select_pdf_files listing = map (\<lambda>s. str s) [''b.pdf'', ''C.PDF'', ''a.pdf''] \<and>
   \<not> sorted (map (\<lambda>s. str s) [''b.pdf'', ''C.PDF'', ''a.pdf'']) \<and>
   process_pdfs_in_folder (sample_env listing) (str '' in '')
     = Inr ([Processing (str ''in/b.pdf''),
             Processing (str ''in/C.PDF''), PdfProcessingFailed (OSError (str ''cannot open'')),
             Processing (str ''in/a.pdf''),
             CsvSaved (str ''in/extracted_data.csv'')],
            Some (str ''in/extracted_data.csv'', final_ba))"
proof (intro conjI)
  show "select_pdf_files listing = map (\<lambda>s. str s) [''b.pdf'', ''C.PDF'', ''a.pdf'']"
    by (rule select_listing)
  show "\<not> sorted (map (\<lambda>s. str s) [''b.pdf'', ''C.PDF'', ''a.pdf''])"
    by simp
  show "process_pdfs_in_folder (sample_env listing) (str '' in '')
     = Inr ([Processing (str ''in/b.pdf''),
             Processing (str ''in/C.PDF''), PdfProcessingFailed (OSError (str ''cannot open'')),
             Processing (str ''in/a.pdf''),
             CsvSaved (str ''in/extracted_data.csv'')],
            Some (str ''in/extracted_data.csv'', final_ba))"
    by (rule listing_run)
qed

section \<open>The claims on the example documents\<close>

lemma missing_rev_anchors:
  "find_text_position [missing_rev_page] (str ''NPS'') = Inr [(0, small_rect)]"
  "find_text_position [missing_rev_page] (str ''TOXIC'') = Inr [(0, small_rect)]"
  "find_text_position [missing_rev_page] (str ''KOSHA'') = Inr [(0, small_rect)]"
  "find_text_position [missing_rev_page] (str ''ISO DWG. NO.'') = Inr [(0, small_rect)]"
  "find_text_position [missing_rev_page] (str ''REV. NO'') = Inr []"
  by (simp_all add: find_text_position_def missing_rev_page_def text_page_def five_keywords_def
        get_corrected_rect_def)

text \<open>
  Claim C5, as stated, fails twice. First, the required keywords are three markers and
  two labels, not four markers: the document \<^verbatim>\<open>in/a.pdf\<close> has anchors for \<^verbatim>\<open>NPS\<close>,
  \<^verbatim>\<open>TOXIC\<close>, \<^verbatim>\<open>KOSHA\<close>, \<^verbatim>\<open>ISO DWG. NO.\<close> and \<^verbatim>\<open>REV. NO\<close> and for nothing else, and it
  is extracted. Second, in \<^verbatim>\<open>in/g.pdf\<close> the keyword \<^verbatim>\<open>REV. NO\<close> has no anchor, but the
  search for \<^verbatim>\<open>NPS\<close> raises, and the failure reported is the one of the search, not
  the missing keyword.
\<close>

theorem missing_anchor_counterexample:
  "sample_open (str ''in/a.pdf'') = Inr [good_page_a] \<and>
   search_for good_page_a = five_keywords \<and>
   extract_data_from_pdf sample_open (str ''in/a.pdf'') = Inr ([], Some frame_a) \<and>
   sample_open (str ''in/g.pdf'') = Inr [search_raises_page] \<and>
   find_text_position [search_raises_page] (str ''REV. NO'') = Inr [] \<and>
   extract_data_from_pdf sample_open (str ''in/g.pdf'')
     = Inr ([KeywordSearchFailed (RuntimeError (str ''search''))], None)"
proof (intro conjI)
  show "sample_open (str ''in/a.pdf'') = Inr [good_page_a]"
    by (simp add: sample_open_def)
  show "search_for good_page_a = five_keywords"
    by (simp add: good_page_a_def text_page_def)
  show "extract_data_from_pdf sample_open (str ''in/a.pdf'') = Inr ([], Some frame_a)"
    by (rule sample_results)
  show "sample_open (str ''in/g.pdf'') = Inr [search_raises_page]"
    by (simp add: sample_open_def)
  show "find_text_position [search_raises_page] (str ''REV. NO'') = Inr []"
    by (simp add: find_text_position_def search_raises_page_def text_page_def)
  show "extract_data_from_pdf sample_open (str ''in/g.pdf'')
     = Inr ([KeywordSearchFailed (RuntimeError (str ''search''))], None)"
    by (rule sample_results)
qed

theorem missing_anchor_fails_witness:
  "find_text_position [missing_rev_page] (str ''REV. NO'') = Inr [] \<and>
   extract_data_from_pdf sample_open (str ''in/d.pdf'')
     = Inr ([KeywordsNotFound (str ''in/d.pdf'')], None) \<and>
   process_files (sample_env listing) (str ''in'') [str ''d.pdf'', str ''a.pdf'']
     = Inr ([Processing (str ''in/d.pdf''), KeywordsNotFound (str ''in/d.pdf''),
             Processing (str ''in/a.pdf'')], [frame_a])"
proof -
  have a: "sample_open (str ''in/d.pdf'') = Inr [missing_rev_page] \<and>
    find_text_position [missing_rev_page] (str ''NPS'') = Inr [(0, small_rect)] \<and>
    find_text_position [missing_rev_page] (str ''TOXIC'') = Inr [(0, small_rect)] \<and>
    find_text_position [missing_rev_page] (str ''KOSHA'') = Inr [(0, small_rect)] \<and>
    find_text_position [missing_rev_page] (str ''ISO DWG. NO.'') = Inr [(0, small_rect)] \<and>
    find_text_position [missing_rev_page] (str ''REV. NO'') = Inr [] \<and>
    ([(0, small_rect)] = [] \<or> [(0, small_rect)] = [] \<or> [(0, small_rect)] = []
       \<or> [(0, small_rect)] = [] \<or> ([] :: (nat \<times> rect) list) = [])"
    using missing_rev_anchors by (simp add: sample_open_def)
  have w1: "extract_data_from_pdf sample_open (str ''in/d.pdf'')
     = Inr ([KeywordsNotFound (str ''in/d.pdf'')], None)"
    by (rule missing_anchor_fails [where open_pdf = sample_open and doc = "[missing_rev_page]"
          and nps = "[(0, small_rect)]" and toxic = "[(0, small_rect)]"
          and kosha = "[(0, small_rect)]" and iso_no = "[(0, small_rect)]" and rev_no = "[]",
          THEN conjunct1, THEN mp, OF a])
  have b: "fitz_open (sample_env listing) (path_join (sample_env listing) (str ''in'') (str ''d.pdf''))
      = Inr [missing_rev_page] \<and>
    find_text_position [missing_rev_page] (str ''NPS'') = Inr [(0, small_rect)] \<and>
    find_text_position [missing_rev_page] (str ''TOXIC'') = Inr [(0, small_rect)] \<and>
    find_text_position [missing_rev_page] (str ''KOSHA'') = Inr [(0, small_rect)] \<and>
    find_text_position [missing_rev_page] (str ''ISO DWG. NO.'') = Inr [(0, small_rect)] \<and>
    find_text_position [missing_rev_page] (str ''REV. NO'') = Inr [] \<and>
    ([(0, small_rect)] = [] \<or> [(0, small_rect)] = [] \<or> [(0, small_rect)] = []
       \<or> [(0, small_rect)] = [] \<or> ([] :: (nat \<times> rect) list) = [])"
    using missing_rev_anchors by (simp add: sample_env_simps sample_open_def)
  have rest: "process_files (sample_env listing) (str ''in'') [str ''a.pdf'']
     = Inr ([Processing (str ''in/a.pdf'')], [frame_a])"
    using sample_results(1) frames_not_empty
    by (simp add: sample_env_simps Let_def)
  from missing_anchor_fails [where env = "sample_env listing" and folder = "str ''in''"
          and f = "str ''d.pdf''" and fs = "[str ''a.pdf'']" and doc = "[missing_rev_page]"
          and nps = "[(0, small_rect)]" and toxic = "[(0, small_rect)]"
          and kosha = "[(0, small_rect)]" and iso_no = "[(0, small_rect)]" and rev_no = "[]",
          THEN conjunct2, THEN mp, OF b] rest
  have w2: "process_files (sample_env listing) (str ''in'') [str ''d.pdf'', str ''a.pdf'']
     = Inr ([Processing (str ''in/d.pdf''), KeywordsNotFound (str ''in/d.pdf''),
             Processing (str ''in/a.pdf'')], [frame_a])"
    by (simp add: sample_env_simps)
  from missing_rev_anchors(5) w1 w2 show ?thesis
    by (intro conjI)
qed

theorem extract_data_from_pdf_failures_witness:
  "extract_data_from_pdf sample_open (str ''in/C.PDF'')
     = Inr ([PdfProcessingFailed (OSError (str ''cannot open''))], None) \<and>
   extract_data_from_pdf sample_open (str ''in/g.pdf'')
     = Inr ([KeywordSearchFailed (RuntimeError (str ''search''))], None) \<and>
   extract_data_from_pdf sample_open (str ''in/d.pdf'')
     = Inr ([KeywordsNotFound (str ''in/d.pdf'')], None) \<and>
   extract_data_from_pdf sample_open (str ''in/f.pdf'')
     = Inr ([TableExtractFailed (str ''in/f.pdf'')], None) \<and>
   extract_data_from_pdf sample_open (str ''in/e.pdf'')
     = Inr ([TableShapeMismatch (str ''in/e.pdf'')], None) \<and>
   extract_data_from_pdf sample_open (str ''in/h.pdf'')
     = Inr ([PdfProcessingFailed (RuntimeError (str ''clip''))], None) \<and>
   table_parser (str ''in/a.pdf'') (str ''  '') (str ''ISO-1'') (str ''A'')
     = ([TableEmpty (str ''in/a.pdf'')], None) \<and>
   extract_data_from_pdf sample_open (str ''in/a.pdf'') = Inr ([], Some frame_a)"
proof -
  have "table_rows (str ''  '') = []"
    by (simp add: table_rows_def split_on_Nil split_on_Cons newline_def strip_def isspace_def)
  then have first: "fst (table_parser (str ''in/a.pdf'') (str ''  '') (str ''ISO-1'') (str ''A''))
      = [TableEmpty (str ''in/a.pdf'')]"
    by (simp add: table_parser_def)
  then have "fst (table_parser (str ''in/a.pdf'') (str ''  '') (str ''ISO-1'') (str ''A'')) \<noteq> []"
    by simp
  from extract_data_from_pdf_failures [THEN conjunct2, THEN mp, OF this]
  have "snd (table_parser (str ''in/a.pdf'') (str ''  '') (str ''ISO-1'') (str ''A'')) = None" .
  with first have "table_parser (str ''in/a.pdf'') (str ''  '') (str ''ISO-1'') (str ''A'')
     = ([TableEmpty (str ''in/a.pdf'')], None)"
    by (simp add: prod_eq_iff)
  with sample_results show ?thesis
    by (intro conjI)
qed

theorem extracted_rows_carry_iso_and_rev_witness:
  "extract_data_from_pdf sample_open (str ''in/a.pdf'') = Inr ([], Some frame_a) \<and>
   df_rows frame_a = map (\<lambda>r. r @ [str ''ISO-1'', str ''A'']) [row19, row19, row19] \<and>
   process_pdfs_in_folder (sample_env listing) (str '' in '')
     = Inr ([Processing (str ''in/b.pdf''),
             Processing (str ''in/C.PDF''), PdfProcessingFailed (OSError (str ''cannot open'')),
             Processing (str ''in/a.pdf''),
             CsvSaved (str ''in/extracted_data.csv'')],
            Some (str ''in/extracted_data.csv'', final_ba)) \<and>
   df_columns final_ba = columns @ [str ''ISO_NO'', str ''REV.NO''] \<and>
   length (df_columns final_ba) = 21 \<and>
   df_rows final_ba = map (\<lambda>r. r @ [str ''ISO-2'', str ''B'']) [row19]
                      @ map (\<lambda>r. r @ [str ''ISO-1'', str ''A'']) [row19, row19, row19]"
proof -
  have run: "process_pdfs_in_folder (sample_env listing) (str '' in '')
     = Inr ([Processing (str ''in/b.pdf''),
             Processing (str ''in/C.PDF''), PdfProcessingFailed (OSError (str ''cannot open'')),
             Processing (str ''in/a.pdf''),
             CsvSaved (str ''in/extracted_data.csv'')],
            Some (str ''in/extracted_data.csv'', final_ba))"
    by (rule listing_run)
  note T = extracted_rows_carry_iso_and_rev [THEN conjunct2, THEN mp, OF run]
  have c1: "df_columns final_ba = columns @ [str ''ISO_NO'', str ''REV.NO'']"
    by (rule T [THEN conjunct1])
  have c2: "length (df_columns final_ba) = 21"
    by (rule T [THEN conjunct2, THEN conjunct1])
  have r1: "df_rows frame_a = map (\<lambda>r. r @ [str ''ISO-1'', str ''A'']) [row19, row19, row19]"
    by (simp add: frame_a_def)
  have r2: "df_rows final_ba = map (\<lambda>r. r @ [str ''ISO-2'', str ''B'']) [row19]
                      @ map (\<lambda>r. r @ [str ''ISO-1'', str ''A'']) [row19, row19, row19]"
    by (simp add: final_ba_def frame_a_def frame_b_def)
  from sample_results(1) r1 run c1 c2 r2 show ?thesis
    by (intro conjI)
qed

lemma sample_documents:
  "document_table (sample_env names) (str ''in'') (str ''a.pdf'') = Some frame_a"
  "document_table (sample_env names) (str ''in'') (str ''b.pdf'') = Some frame_b"
  "document_table (sample_env names) (str ''in'') (str ''C.PDF'') = None"
  "document_table (sample_env names) (str ''in'') (str ''d.pdf'') = None"
  "document_printed (sample_env names) (str ''in'') (str ''a.pdf'') = []"
  "document_printed (sample_env names) (str ''in'') (str ''b.pdf'') = []"
  "document_printed (sample_env names) (str ''in'') (str ''C.PDF'')
     = [PdfProcessingFailed (OSError (str ''cannot open''))]"
  "document_printed (sample_env names) (str ''in'') (str ''d.pdf'')
     = [KeywordsNotFound (str ''in/d.pdf'')]"
  using sample_results(1-4)
  by (simp_all add: document_table_def document_printed_def sample_env_simps)

lemma select_failing_listing:
  "select_pdf_files failing_listing = map (\<lambda>s. str s) [''C.PDF'', ''d.pdf'']"
  by (simp add: select_pdf_files_def failing_listing_def lower_def endswith_def)

theorem process_pdfs_in_folder_batch_witness:
  "process_files (sample_env listing) (str ''in'') (select_pdf_files listing)
     = Inr ([Processing (str ''in/b.pdf''),
             Processing (str ''in/C.PDF''), PdfProcessingFailed (OSError (str ''cannot open'')),
             Processing (str ''in/a.pdf'')], [frame_b, frame_a]) \<and>
   process_pdfs_in_folder (sample_env listing) (str '' in '')
     = Inr ([Processing (str ''in/b.pdf''),
             Processing (str ''in/C.PDF''), PdfProcessingFailed (OSError (str ''cannot open'')),
             Processing (str ''in/a.pdf''),
             CsvSaved (str ''in/extracted_data.csv'')],
            Some (str ''in/extracted_data.csv'', final_ba)) \<and>
   process_pdfs_in_folder (sample_env failing_listing) (str '' in '')
     = Inr ([Processing (str ''in/C.PDF''), PdfProcessingFailed (OSError (str ''cannot open'')),
             Processing (str ''in/d.pdf''), KeywordsNotFound (str ''in/d.pdf''),
             NothingExtracted], None)"
proof -
  have pe: "path_exists (sample_env names) (strip (str '' in ''))" for names
    using strip_in by (simp add: sample_env_simps)
  have ld: "listdir (sample_env names) (strip (str '' in '')) = Inr names" for names
    by (simp add: sample_env_simps)
  note T = process_pdfs_in_folder_batch [OF pe ld, of listing]
  note F = process_pdfs_in_folder_batch [OF pe ld, of failing_listing]
  have w1: "process_files (sample_env listing) (str ''in'') (select_pdf_files listing)
     = Inr ([Processing (str ''in/b.pdf''),
             Processing (str ''in/C.PDF''), PdfProcessingFailed (OSError (str ''cannot open'')),
             Processing (str ''in/a.pdf'')], [frame_b, frame_a])"
    using T [THEN conjunct1] strip_in sample_documents [of listing]
    by (simp add: select_listing map_filter_simps sample_env_simps)
  have w2: "process_pdfs_in_folder (sample_env listing) (str '' in '')
     = Inr ([Processing (str ''in/b.pdf''),
             Processing (str ''in/C.PDF''), PdfProcessingFailed (OSError (str ''cannot open'')),
             Processing (str ''in/a.pdf''),
             CsvSaved (str ''in/extracted_data.csv'')],
            Some (str ''in/extracted_data.csv'', final_ba))"
    using T [THEN conjunct2, THEN conjunct2, THEN conjunct2, THEN conjunct2] strip_in
      sample_documents [of listing]
    by (simp add: select_listing map_filter_simps sample_env_simps final_ba_def)
  have w3: "process_pdfs_in_folder (sample_env failing_listing) (str '' in '')
     = Inr ([Processing (str ''in/C.PDF''), PdfProcessingFailed (OSError (str ''cannot open'')),
             Processing (str ''in/d.pdf''), KeywordsNotFound (str ''in/d.pdf''),
             NothingExtracted], None)"
    using F [THEN conjunct2, THEN conjunct2, THEN conjunct2, THEN conjunct1] strip_in
      sample_documents [of failing_listing]
    by (simp add: select_failing_listing map_filter_simps sample_env_simps)
  from w1 w2 w3 show ?thesis
    by (intro conjI)
qed

end
